theory Spec2Isabelle
  imports Complex_Main
begin

section \<open>The inventory manager (\<^verbatim>\<open>inventory_manager.py\<close>)\<close>

text \<open>
  The module keeps a Python list of \<^verbatim>\<open>Product\<close> objects and offers lookup, add,
  update and delete on it, together with a JSON snapshot on disk.

  Modelling decisions.
  \<^item> A \<^verbatim>\<open>Product\<close> object is a record; the inventory is a list of records. Every
    object of the list is created by \<^verbatim>\<open>load_inventory\<close> or \<^verbatim>\<open>add_product\<close>, one
    fresh object per entry, so no object occurs twice in the list and the identity of an
    object is its position. A function that mutates the list or an object returns the new
    list.
  \<^item> Python's \<^verbatim>\<open>int\<close> is \<open>int\<close>. The price (a Python \<^verbatim>\<open>float\<close>) is a \<open>real\<close>:
    the code only compares it with zero and stores it.
  \<^item> A Python \<^verbatim>\<open>str\<close> is a \<open>string\<close> of ASCII characters. \<^verbatim>\<open>upper\<close>,
    \<^verbatim>\<open>lower\<close>, \<^verbatim>\<open>strip\<close> and \<^verbatim>\<open>int\<close> are modelled on that range; a character
    outside it is left alone by the case conversions and is neither white space nor a
    digit.
  \<^item> A conversion between \<^verbatim>\<open>int\<close> and \<^verbatim>\<open>str\<close> raises \<^verbatim>\<open>ValueError\<close> beyond the
    interpreter's default limit of 4300 digits: in \<^verbatim>\<open>int(s)\<close>, in the format
    \<^verbatim>\<open>03d\<close>, and in \<^verbatim>\<open>json.dump\<close> and \<^verbatim>\<open>json.load\<close>.
  \<^item> An exception that leaves a function is a value \<open>Inl e\<close> of the result.
\<close>

subsection \<open>Python's string primitives\<close>

datatype py_error = ValueError | KeyError | TypeError | IllTyped
  \<comment> \<open>\<open>IllTyped\<close> is no exception of Python: \<^verbatim>\<open>load_inventory\<close> has returned a list in
      which a field of a product has a value that the field's type annotation excludes and
      the record cannot hold\<close>

definition is_space :: "char \<Rightarrow> bool" where
  \<comment> \<open>the ASCII characters for which \<^verbatim>\<open>str.isspace\<close> holds: TAB, LF, VT, FF, CR, FS, GS, RS, US, SPACE\<close>
  "is_space c = ((9::nat) \<le> of_char c \<and> (of_char c::nat) \<le> 13 \<or>
                 (28::nat) \<le> of_char c \<and> (of_char c::nat) \<le> 32)"

definition is_lower :: "char \<Rightarrow> bool" where
  "is_lower c = ((97::nat) \<le> of_char c \<and> (of_char c::nat) \<le> 122)"

definition is_upper :: "char \<Rightarrow> bool" where
  "is_upper c = ((65::nat) \<le> of_char c \<and> (of_char c::nat) \<le> 90)"

definition is_digit :: "char \<Rightarrow> bool" where
  "is_digit c = ((48::nat) \<le> of_char c \<and> (of_char c::nat) \<le> 57)"

definition upper_char :: "char \<Rightarrow> char" where
  "upper_char c = (if is_lower c then char_of (of_char c - (32::nat)) else c)"

definition lower_char :: "char \<Rightarrow> char" where
  "lower_char c = (if is_upper c then char_of (of_char c + (32::nat)) else c)"

definition upper :: "string \<Rightarrow> string" where
  \<comment> \<open>\<^verbatim>\<open>s.upper()\<close>\<close>
  "upper s = map upper_char s"

definition lower :: "string \<Rightarrow> string" where
  \<comment> \<open>\<^verbatim>\<open>s.lower()\<close>\<close>
  "lower s = map lower_char s"

definition is_c_space :: "char \<Rightarrow> bool" where
  \<comment> \<open>the white space that \<^verbatim>\<open>int\<close> skips in an ASCII string: TAB, LF, VT, FF, CR, SPACE\<close>
  "is_c_space c = ((9::nat) \<le> of_char c \<and> (of_char c::nat) \<le> 13 \<or> (of_char c::nat) = 32)"

definition strip_by :: "(char \<Rightarrow> bool) \<Rightarrow> string \<Rightarrow> string" where
  "strip_by P s = rev (dropWhile P (rev (dropWhile P s)))"

definition strip :: "string \<Rightarrow> string" where
  \<comment> \<open>\<^verbatim>\<open>s.strip()\<close>: white space removed at both ends\<close>
  "strip s = strip_by is_space s"

definition startswith :: "string \<Rightarrow> string \<Rightarrow> bool" where
  \<comment> \<open>\<^verbatim>\<open>s.startswith(p)\<close>\<close>
  "startswith s p = (take (length p) s = p)"

subsection \<open>\<^verbatim>\<open>int(s)\<close> and the format \<^verbatim>\<open>03d\<close>\<close>

definition digit_val :: "char \<Rightarrow> nat" where
  "digit_val c = of_char c - 48"

definition digit_char :: "nat \<Rightarrow> char" where
  "digit_char d = char_of (48 + d)"

text \<open>
  The digits of a decimal literal: at least one digit, single underscores allowed between
  digits only. The flag says whether the previous character was a digit.
\<close>

fun parse_digits :: "nat \<Rightarrow> bool \<Rightarrow> string \<Rightarrow> nat option" where
  "parse_digits acc prev [] = (if prev then Some acc else None)"
| "parse_digits acc prev (c # cs) =
     (if is_digit c then parse_digits (10 * acc + digit_val c) True cs
      else if c = CHR ''_'' \<and> prev then parse_digits acc False cs
      else None)"

definition max_str_digits :: nat where
  \<comment> \<open>the interpreter's default limit on the digits of a conversion between \<^verbatim>\<open>int\<close> and
      \<^verbatim>\<open>str\<close>; the program does not change it\<close>
  "max_str_digits = 4300"

definition py_digits :: "string \<Rightarrow> nat option" where
  \<comment> \<open>the digits of the literal, leading zeros counted and underscores not, are at most
      \<open>max_str_digits\<close>\<close>
  "py_digits ds =
     (if max_str_digits < length (filter is_digit ds) then None else parse_digits 0 False ds)"

definition py_int :: "string \<Rightarrow> int option" where
  \<comment> \<open>\<^verbatim>\<open>int(s)\<close> in base 10: white space at both ends, an optional sign, the digits;
      \<open>None\<close> stands for \<^verbatim>\<open>ValueError\<close>\<close>
  "py_int s =
     (case strip_by is_c_space s of
        [] \<Rightarrow> None
      | c # cs \<Rightarrow>
          if c = CHR ''-'' then map_option (\<lambda>n. - int n) (py_digits cs)
          else if c = CHR ''+'' then map_option int (py_digits cs)
          else map_option int (py_digits (c # cs)))"

fun string_of_nat :: "nat \<Rightarrow> string" where
  "string_of_nat n =
     (if n < 10 then [digit_char n] else string_of_nat (n div 10) @ [digit_char (n mod 10)])"

declare string_of_nat.simps [simp del]

definition zero_pad :: "nat \<Rightarrow> string \<Rightarrow> string" where
  "zero_pad w s = replicate (w - length s) CHR ''0'' @ s"

definition padded_decimal :: "int \<Rightarrow> string" where
  \<comment> \<open>the decimal digits, padded with zeros to a width of three, the sign counted in the
      width\<close>
  "padded_decimal n =
     (if n < 0 then CHR ''-'' # zero_pad 2 (string_of_nat (nat (- n)))
      else zero_pad 3 (string_of_nat (nat n)))"

definition format_03d :: "int \<Rightarrow> py_error + string" where
  \<comment> \<open>\<^verbatim>\<open>f"{n:03d}"\<close>: a number of more than \<open>max_str_digits\<close> digits is not converted\<close>
  "format_03d n =
     (if max_str_digits < length (string_of_nat (nat \<bar>n\<bar>)) then Inl ValueError
      else Inr (padded_decimal n))"

subsection \<open>Products and lookup\<close>

record Product =
  name :: string
  price :: real
  stock :: int
  item_code :: string

type_synonym inventory = "Product list"

fun first_index :: "('a \<Rightarrow> bool) \<Rightarrow> 'a list \<Rightarrow> nat option" where
  \<comment> \<open>the position of the first element a generator expression yields\<close>
  "first_index P [] = None"
| "first_index P (x # xs) = (if P x then Some 0 else map_option Suc (first_index P xs))"

definition find_product_ref :: "inventory \<Rightarrow> string \<Rightarrow> nat option" where
  \<comment> \<open>the object \<^verbatim>\<open>find_product\<close> returns, as its position in the list\<close>
  "find_product_ref inventory code = first_index (\<lambda>p. item_code p = strip (upper code)) inventory"

definition find_product :: "inventory \<Rightarrow> string \<Rightarrow> Product option" where
  \<comment> \<open>\<^verbatim>\<open>next((p for p in inventory if p.item_code == item_code.upper().strip()), None)\<close>\<close>
  "find_product inventory code = map_option (\<lambda>i. inventory ! i) (find_product_ref inventory code)"

definition get_product_by_name :: "inventory \<Rightarrow> string \<Rightarrow> Product option" where
  \<comment> \<open>\<^verbatim>\<open>next((p for p in inventory if p.name.lower() == name.lower()), None)\<close>\<close>
  "get_product_by_name inventory nm = find (\<lambda>p. lower (name p) = lower nm) inventory"

subsection \<open>Code generation\<close>

fun item_code_numbers :: "inventory \<Rightarrow> py_error + int list" where
  \<comment> \<open>\<^verbatim>\<open>[int(p.item_code[3:]) for p in inventory if p.item_code.startswith("ITM")]\<close>\<close>
  "item_code_numbers [] = Inr []"
| "item_code_numbers (p # ps) =
     (if startswith (item_code p) ''ITM'' then
        (case py_int (drop 3 (item_code p)) of
           None \<Rightarrow> Inl ValueError
         | Some n \<Rightarrow>
             (case item_code_numbers ps of Inl e \<Rightarrow> Inl e | Inr ns \<Rightarrow> Inr (n # ns)))
      else item_code_numbers ps)"

definition generate_item_code :: "inventory \<Rightarrow> py_error + string" where
  "generate_item_code inventory =
     (if inventory = [] then Inr ''ITM001''
      else
        (case item_code_numbers inventory of
           Inl e \<Rightarrow> Inl e
         | Inr codes \<Rightarrow>
             (case format_03d (case codes of [] \<Rightarrow> 1 | c # cs \<Rightarrow> foldl max c cs + 1) of
                Inl e \<Rightarrow> Inl e
              | Inr digits \<Rightarrow> Inr (''ITM'' @ digits))))"

subsection \<open>Add, update, delete\<close>

definition add_product ::
  "inventory \<Rightarrow> string \<Rightarrow> real \<Rightarrow> int \<Rightarrow> py_error + (Product option \<times> inventory)" where
  \<comment> \<open>the result and the list after the call; an exception leaves the list as it was\<close>
  "add_product inventory nm pr st =
     (if pr \<le> 0 \<or> st < 0 then Inr (None, inventory)
      else if get_product_by_name inventory nm \<noteq> None then Inr (None, inventory)
      else
        (case generate_item_code inventory of
           Inl e \<Rightarrow> Inl e
         | Inr code \<Rightarrow>
             (let new_product = \<lparr>name = nm, price = pr, stock = st, item_code = code\<rparr>
              in Inr (Some new_product, inventory @ [new_product]))))"

definition update_product_details ::
  "inventory \<Rightarrow> string \<Rightarrow> int option \<Rightarrow> real option \<Rightarrow> bool \<times> inventory" where
  \<comment> \<open>the stock is written before the price is looked at, as in the source\<close>
  "update_product_details inventory code new_stock new_price =
     (case find_product_ref inventory code of
        None \<Rightarrow> (False, inventory)
      | Some i \<Rightarrow>
          (case (case new_stock of
                   None \<Rightarrow> Some inventory
                 | Some s \<Rightarrow>
                     if s < 0 then None
                     else Some (inventory[i := (inventory ! i)\<lparr>stock := s\<rparr>])) of
             None \<Rightarrow> (False, inventory)
           | Some inventory1 \<Rightarrow>
               (case new_price of
                  None \<Rightarrow> (True, inventory1)
                | Some p \<Rightarrow>
                    if p \<le> 0 then (False, inventory1)
                    else (True, inventory1[i := (inventory1 ! i)\<lparr>price := p\<rparr>]))))"

definition delete_product :: "inventory \<Rightarrow> string \<Rightarrow> bool \<times> inventory" where
  \<comment> \<open>\<^verbatim>\<open>inventory.remove(product)\<close> takes out the first occurrence of the object found\<close>
  "delete_product inventory code =
     (case find_product_ref inventory code of
        Some i \<Rightarrow> (True, take i inventory @ drop (Suc i) inventory)
      | None \<Rightarrow> (False, inventory))"

subsection \<open>The snapshot file\<close>

text \<open>
  \<^verbatim>\<open>json.dump\<close> and \<^verbatim>\<open>json.load\<close> belong to Python's library. The file is modelled
  by what its text denotes: the file is missing, its text is not JSON, or its text denotes
  a JSON value. \<^verbatim>\<open>json.dump\<close> writes a text that denotes the value it is given, and
  raises \<^verbatim>\<open>ValueError\<close> on an integer of more than \<open>max_str_digits\<close> digits;
  \<^verbatim>\<open>json.load\<close> raises \<^verbatim>\<open>ValueError\<close> on a text with such an integer. The outcome of
  the operating system's calls is a parameter of each function.
\<close>

datatype json =
    JNull
  | JBool bool
  | JInt int
  | JFloat real
  | JStr string
  | JArr "json list"
  | JObj "(string \<times> json) list"

datatype snapshot_file = Missing | Unparseable | Snapshot json

datatype write_outcome = Written | OpenFailed | WriteFailed

definition to_dict :: "Product \<Rightarrow> json" where
  "to_dict p =
     JObj [(''name'', JStr (name p)), (''price'', JFloat (price p)),
           (''stock'', JInt (stock p)), (''item_code'', JStr (item_code p))]"

definition save_inventory ::
  "write_outcome \<Rightarrow> inventory \<Rightarrow> snapshot_file \<Rightarrow> py_error option \<times> snapshot_file" where
  \<comment> \<open>the exception that leaves the call, if any, and the file after the call. Opening
      with mode \<^verbatim>\<open>'w'\<close> empties the file, so a write that fails or is given up leaves
      a text that is not JSON; an \<^verbatim>\<open>IOError\<close> is caught, the \<^verbatim>\<open>ValueError\<close> of
      \<^verbatim>\<open>json.dump\<close> is not\<close>
  "save_inventory w inventory f =
     (case w of
        OpenFailed \<Rightarrow> (None, f)
      | WriteFailed \<Rightarrow> (None, Unparseable)
      | Written \<Rightarrow>
          if \<exists>p\<in>set inventory. max_str_digits < length (string_of_nat (nat \<bar>stock p\<bar>))
          then (Some ValueError, Unparseable)
          else (None, Snapshot (JArr (map to_dict inventory))))"

fun loadable :: "json \<Rightarrow> bool" where
  \<comment> \<open>no integer of the text has more than \<open>max_str_digits\<close> digits\<close>
  "loadable (JInt n) = (length (string_of_nat (nat \<bar>n\<bar>)) \<le> max_str_digits)"
| "loadable (JArr xs) = (\<forall>x\<in>set xs. loadable x)"
| "loadable (JObj kvs) = (\<forall>kv\<in>set kvs. loadable (snd kv))"
| "loadable v = True"

definition subscript :: "json \<Rightarrow> string \<Rightarrow> py_error + json" where
  \<comment> \<open>\<^verbatim>\<open>item[key]\<close>; of a repeated key of an object the last value counts\<close>
  "subscript item key =
     (case item of
        JObj kvs \<Rightarrow> (case map_of (rev kvs) key of None \<Rightarrow> Inl KeyError | Some v \<Rightarrow> Inr v)
      | _ \<Rightarrow> Inl TypeError)"

definition int_of_json :: "json \<Rightarrow> py_error + int" where
  \<comment> \<open>\<^verbatim>\<open>int(v)\<close>\<close>
  "int_of_json v =
     (case v of
        JInt n \<Rightarrow> Inr n
      | JBool b \<Rightarrow> Inr (if b then 1 else 0)
      | JFloat r \<Rightarrow> Inr (if r < 0 then \<lceil>r\<rceil> else \<lfloor>r\<rfloor>)
      | JStr s \<Rightarrow> (case py_int s of None \<Rightarrow> Inl ValueError | Some n \<Rightarrow> Inr n)
      | _ \<Rightarrow> Inl TypeError)"

definition and_then :: "py_error + 'a \<Rightarrow> ('a \<Rightarrow> py_error + 'b) \<Rightarrow> py_error + 'b" where
  \<comment> \<open>the next step runs only if the previous one raised nothing\<close>
  "and_then r k = (case r of Inl e \<Rightarrow> Inl e | Inr x \<Rightarrow> k x)"

text \<open>
  The constructor stores the values of the snapshot as they are, of whatever type: the
  object that \<^verbatim>\<open>load_inventory\<close> builds has JSON values as its name, price and code.
\<close>

record loaded_product =
  loaded_name :: json
  loaded_price :: json
  loaded_stock :: int
  loaded_item_code :: json

definition product_of_json :: "json \<Rightarrow> py_error + loaded_product" where
  \<comment> \<open>\<^verbatim>\<open>Product(name=item['name'], price=item['price'], stock=int(item['stock']),
      item_code=item['item_code'])\<close>, the arguments evaluated from left to right\<close>
  "product_of_json item =
     and_then (subscript item ''name'') (\<lambda>n.
     and_then (subscript item ''price'') (\<lambda>p.
     and_then (and_then (subscript item ''stock'') int_of_json) (\<lambda>st.
     and_then (subscript item ''item_code'') (\<lambda>c.
       Inr \<lparr>loaded_name = n, loaded_price = p, loaded_stock = st, loaded_item_code = c\<rparr>))))"

fun products_of_json :: "json list \<Rightarrow> py_error + loaded_product list" where
  "products_of_json [] = Inr []"
| "products_of_json (item # items) =
     and_then (product_of_json item) (\<lambda>p.
     and_then (products_of_json items) (\<lambda>ps. Inr (p # ps)))"

text \<open>
  The list that \<^verbatim>\<open>load_inventory\<close> returns is an inventory of the model only if every
  object has a string as its name and code and a number as its price, as the annotations
  of \<^verbatim>\<open>Product\<close> say. Otherwise the call has returned, and the result is \<open>Inl IllTyped\<close>.
\<close>

definition str_field :: "json \<Rightarrow> py_error + string" where
  "str_field v = (case v of JStr s \<Rightarrow> Inr s | _ \<Rightarrow> Inl IllTyped)"

definition float_field :: "json \<Rightarrow> py_error + real" where
  "float_field v = (case v of JFloat r \<Rightarrow> Inr r | JInt n \<Rightarrow> Inr (of_int n) | _ \<Rightarrow> Inl IllTyped)"

definition typed_product :: "loaded_product \<Rightarrow> py_error + Product" where
  "typed_product l =
     and_then (str_field (loaded_name l)) (\<lambda>nm.
     and_then (float_field (loaded_price l)) (\<lambda>pr.
     and_then (str_field (loaded_item_code l)) (\<lambda>code.
       Inr \<lparr>name = nm, price = pr, stock = loaded_stock l, item_code = code\<rparr>)))"

fun typed_products :: "loaded_product list \<Rightarrow> py_error + inventory" where
  "typed_products [] = Inr []"
| "typed_products (l # ls) =
     and_then (typed_product l) (\<lambda>p.
     and_then (typed_products ls) (\<lambda>ps. Inr (p # ps)))"

definition iterate :: "json \<Rightarrow> py_error + json list" where
  \<comment> \<open>\<^verbatim>\<open>for item in data\<close>: a list gives its elements, an object its keys, a string its
      characters; nothing else can be iterated over\<close>
  "iterate data =
     (case data of
        JArr items \<Rightarrow> Inr items
      | JObj kvs \<Rightarrow> Inr (map JStr (remdups (map fst kvs)))
      | JStr s \<Rightarrow> Inr (map (\<lambda>c. JStr [c]) s)
      | _ \<Rightarrow> Inl TypeError)"

definition load_inventory :: "bool \<Rightarrow> snapshot_file \<Rightarrow> py_error + inventory" where
  \<comment> \<open>the flag: the file can be opened and read. \<^verbatim>\<open>IOError\<close>, \<^verbatim>\<open>JSONDecodeError\<close>,
      \<^verbatim>\<open>KeyError\<close> and \<^verbatim>\<open>ValueError\<close>, also the one of \<^verbatim>\<open>json.load\<close>, are caught and
      give the empty list\<close>
  "load_inventory readable f =
     (case f of
        Missing \<Rightarrow> Inr []
      | Unparseable \<Rightarrow> Inr []
      | Snapshot data \<Rightarrow>
          if \<not> readable \<or> \<not> loadable data then Inr []
          else
            (case and_then (iterate data) products_of_json of
               Inl e \<Rightarrow> if e = KeyError \<or> e = ValueError then Inr [] else Inl e
             | Inr loaded \<Rightarrow> typed_products loaded))"

subsection \<open>Notions of the specification\<close>

definition numbered :: "Product \<Rightarrow> int \<Rightarrow> bool" where
  \<comment> \<open>the code of the product begins with \<^verbatim>\<open>ITM\<close> and \<^verbatim>\<open>int\<close> reads the rest as \<open>n\<close>\<close>
  "numbered p n = (startswith (item_code p) ''ITM'' \<and> py_int (drop 3 (item_code p)) = Some n)"

definition is_decimal :: "string \<Rightarrow> bool" where
  \<comment> \<open>a decimal numeral that is not empty\<close>
  "is_decimal s = (s \<noteq> [] \<and> list_all is_digit s)"

definition unnormalised :: "string \<Rightarrow> bool" where
  \<comment> \<open>the code contains a lower-case letter, or begins or ends with white space\<close>
  "unnormalised c =
     ((\<exists>ch\<in>set c. is_lower ch) \<or> (c \<noteq> [] \<and> (is_space (hd c) \<or> is_space (last c))))"

subsection \<open>Sample data\<close>

definition widget :: Product where
  "widget = \<lparr>name = ''Widget'', price = 10, stock = 2, item_code = ''ITM001''\<rparr>"

definition gadget :: Product where
  "gadget = \<lparr>name = ''Gadget'', price = 5, stock = 1, item_code = ''ITM003''\<rparr>"

definition lamp :: Product where
  \<comment> \<open>a product whose stored code is in lower case\<close>
  "lamp = \<lparr>name = ''Lamp'', price = 4, stock = 3, item_code = ''itm001''\<rparr>"

definition crate :: Product where
  \<comment> \<open>a product whose stored code has no number after the prefix\<close>
  "crate = \<lparr>name = ''Crate'', price = 7, stock = 4, item_code = ''ITMx''\<rparr>"

definition ledger :: Product where
  \<comment> \<open>a product whose stored code continues with 4301 digits\<close>
  "ledger = \<lparr>name = ''Ledger'', price = 9, stock = 5,
              item_code = ''ITM'' @ replicate 4301 CHR ''1''\<rparr>"

definition register :: Product where
  \<comment> \<open>a product whose stored code continues with as many nines as \<open>max_str_digits\<close>\<close>
  "register = \<lparr>name = ''Register'', price = 6, stock = 8,
                item_code = ''ITM'' @ replicate max_str_digits CHR ''9''\<rparr>"

definition vault :: Product where
  \<comment> \<open>a product whose stock has one digit more than \<open>max_str_digits\<close>\<close>
  "vault = \<lparr>name = ''Vault'', price = 3, stock = 10 ^ max_str_digits, item_code = ''ITM002''\<rparr>"

definition barrel :: Product where
  "barrel = \<lparr>name = ''Barrel'', price = 8, stock = 6, item_code = ''ITM''\<rparr>"

section \<open>Properties\<close>

subsection \<open>Characters and strings\<close>

lemma of_char_upper_char:
  assumes "is_lower c"
  shows "(of_char (upper_char c) :: nat) = of_char c - 32"
proof -
  from assms have "(of_char c :: nat) - 32 < 256" unfolding is_lower_def by arith
  then have "((of_char c :: nat) - 32) mod 256 = of_char c - 32" by (rule mod_less)
  with assms show ?thesis by (simp add: upper_char_def)
qed

lemma upper_char_not_lower: "\<not> is_lower (upper_char c)"
proof (cases "is_lower c")
  case True
  with of_char_upper_char [OF True] show ?thesis unfolding is_lower_def by arith
next
  case False
  then show ?thesis by (simp add: upper_char_def)
qed

lemma upper_char_idem: "upper_char (upper_char c) = upper_char c"
  using upper_char_not_lower [of c] by (simp add: upper_char_def [of "upper_char c"])

lemma upper_idem: "upper (upper s) = upper s"
  by (simp add: upper_def upper_char_idem)

lemma is_space_upper_char: "is_space (upper_char c) = is_space c"
proof (cases "is_lower c")
  case True
  with of_char_upper_char [OF True] show ?thesis unfolding is_lower_def is_space_def by arith
next
  case False
  then show ?thesis by (simp add: upper_char_def)
qed

lemma strip_upper: "strip (upper s) = upper (strip s)"
proof -
  have sp: "is_space \<circ> upper_char = is_space"
    by (rule ext) (simp add: is_space_upper_char)
  show ?thesis
    by (simp add: strip_def strip_by_def upper_def dropWhile_map rev_map sp)
qed

lemma upper_no_lower: "\<forall>c\<in>set (upper s). \<not> is_lower c"
  by (simp add: upper_def upper_char_not_lower)

lemma set_strip: "set (strip s) \<subseteq> set s"
proof -
  have "set (strip s) \<subseteq> set (dropWhile is_space s)"
    unfolding strip_def strip_by_def by (auto dest: set_dropWhileD)
  then show ?thesis by (auto dest: set_dropWhileD)
qed

lemma last_dropWhile: "dropWhile P xs \<noteq> [] \<Longrightarrow> last (dropWhile P xs) = last xs"
  by (induction xs) (auto split: if_splits)

lemma dropWhile_rev_nonempty: "dropWhile P (rev t) \<noteq> [] \<Longrightarrow> t \<noteq> []"
  by auto

lemma strip_hd: "strip s \<noteq> [] \<Longrightarrow> \<not> is_space (hd (strip s))"
proof -
  assume ne: "strip s \<noteq> []"
  let ?t = "dropWhile is_space s"
  from ne have d: "dropWhile is_space (rev ?t) \<noteq> []" by (simp add: strip_def strip_by_def)
  then have t: "?t \<noteq> []" by (rule dropWhile_rev_nonempty)
  have "hd (strip s) = last (dropWhile is_space (rev ?t))"
    using d by (simp add: strip_def strip_by_def hd_rev)
  also have "\<dots> = last (rev ?t)" using d by (rule last_dropWhile)
  also have "\<dots> = hd ?t" using t by (simp add: last_rev)
  finally show ?thesis using hd_dropWhile [OF t] by simp
qed

lemma strip_last: "strip s \<noteq> [] \<Longrightarrow> \<not> is_space (last (strip s))"
proof -
  assume ne: "strip s \<noteq> []"
  let ?u = "dropWhile is_space (rev (dropWhile is_space s))"
  from ne have d: "?u \<noteq> []" by (simp add: strip_def strip_by_def)
  have "last (strip s) = hd ?u" using d by (simp add: strip_def strip_by_def last_rev)
  then show ?thesis using hd_dropWhile [OF d] by simp
qed

lemma strip_by_id: "s \<noteq> [] \<Longrightarrow> \<not> P (hd s) \<Longrightarrow> \<not> P (last s) \<Longrightarrow> strip_by P s = s"
proof -
  assume s: "s \<noteq> []" "\<not> P (hd s)" "\<not> P (last s)"
  then have 1: "dropWhile P s = s" by (cases s) auto
  from s have "rev s \<noteq> []" "\<not> P (hd (rev s))" by (simp_all add: hd_rev)
  then have 2: "dropWhile P (rev s) = rev s" by (cases "rev s") auto
  show ?thesis by (simp add: strip_by_def 1 2)
qed

subsection \<open>Lookup\<close>

lemma first_index_None: "first_index P xs = None \<longleftrightarrow> (\<forall>x\<in>set xs. \<not> P x)"
  by (induction xs) auto

lemma first_index_Some:
  "first_index P xs = Some i \<Longrightarrow>
     i < length xs \<and> P (xs ! i) \<and> (\<forall>y\<in>set (take i xs). \<not> P y)"
proof (induction xs arbitrary: i)
  case Nil
  then show ?case by simp
next
  case (Cons x xs)
  show ?case
  proof (cases "P x")
    case True
    with Cons.prems show ?thesis by simp
  next
    case False
    with Cons.prems obtain j where j: "first_index P xs = Some j" "i = Suc j"
      by auto
    from Cons.IH [OF j(1)] False j(2) show ?thesis by simp
  qed
qed

lemma first_index_split:
  assumes "first_index P xs = Some i"
  shows "xs = take i xs @ xs ! i # drop (Suc i) xs"
  using first_index_Some [OF assms] by (simp add: id_take_nth_drop)

lemma first_index_append:
  "\<forall>y\<in>set ys. \<not> P y \<Longrightarrow> P p \<Longrightarrow> first_index P (ys @ p # zs) = Some (length ys)"
  by (induction ys) auto

lemma find_product_find:
  "find_product inventory code = find (\<lambda>p. item_code p = strip (upper code)) inventory"
  unfolding find_product_def find_product_ref_def
proof (induction inventory)
  case Nil
  show ?case by simp
next
  case (Cons p ps)
  then show ?case by (cases "first_index (\<lambda>p. item_code p = strip (upper code)) ps") auto
qed

lemma find_product_None:
  "find_product inventory code = None \<longleftrightarrow> find_product_ref inventory code = None"
  by (simp add: find_product_def)

lemma find_product_SomeD:
  assumes "find_product inventory code = Some p"
  obtains i where "find_product_ref inventory code = Some i" "i < length inventory"
    "inventory ! i = p" "item_code p = strip (upper code)"
    "\<forall>y\<in>set (take i inventory). item_code y \<noteq> strip (upper code)"
proof -
  from assms obtain i where i: "find_product_ref inventory code = Some i" "inventory ! i = p"
    by (auto simp: find_product_def)
  from first_index_Some [OF i(1) [unfolded find_product_ref_def]] i(2)
  have "i < length inventory" "item_code p = strip (upper code)"
    "\<forall>y\<in>set (take i inventory). item_code y \<noteq> strip (upper code)"
    by auto
  with i that show thesis by blast
qed

lemma find_product_split:
  assumes "find_product inventory code = Some p"
  obtains i where "find_product_ref inventory code = Some i" "i < length inventory"
    "inventory ! i = p" "inventory = take i inventory @ p # drop (Suc i) inventory"
    "\<forall>y\<in>set (take i inventory). item_code y \<noteq> strip (upper code)"
proof -
  from assms obtain i where i: "find_product_ref inventory code = Some i" "i < length inventory"
    "inventory ! i = p"
    "\<forall>y\<in>set (take i inventory). item_code y \<noteq> strip (upper code)"
    by (rule find_product_SomeD)
  have "inventory = take i inventory @ p # drop (Suc i) inventory"
    using id_take_nth_drop [OF i(2)] i(3) by simp
  with i that show thesis by blast
qed

lemma upper_fixed: "\<forall>c\<in>set s. \<not> is_lower c \<Longrightarrow> upper s = s"
  by (induction s) (simp_all add: upper_def upper_char_def)

lemma find_product_Some_iff:
  "find_product inventory code = Some p \<longleftrightarrow>
     (\<exists>ys zs. inventory = ys @ p # zs \<and> item_code p = strip (upper code) \<and>
        (\<forall>y\<in>set ys. item_code y \<noteq> strip (upper code)))"
proof
  assume "find_product inventory code = Some p"
  then obtain i where i: "find_product_ref inventory code = Some i"
    "inventory = take i inventory @ p # drop (Suc i) inventory"
    "\<forall>y\<in>set (take i inventory). item_code y \<noteq> strip (upper code)"
    by (rule find_product_split)
  moreover from \<open>find_product inventory code = Some p\<close> have "item_code p = strip (upper code)"
    by (rule find_product_SomeD)
  ultimately show "\<exists>ys zs. inventory = ys @ p # zs \<and> item_code p = strip (upper code) \<and>
        (\<forall>y\<in>set ys. item_code y \<noteq> strip (upper code))"
    by blast
next
  assume "\<exists>ys zs. inventory = ys @ p # zs \<and> item_code p = strip (upper code) \<and>
        (\<forall>y\<in>set ys. item_code y \<noteq> strip (upper code))"
  then obtain ys zs where s: "inventory = ys @ p # zs" "item_code p = strip (upper code)"
    "\<forall>y\<in>set ys. item_code y \<noteq> strip (upper code)"
    by blast
  have "first_index (\<lambda>q. item_code q = strip (upper code)) (ys @ p # zs) = Some (length ys)"
    by (rule first_index_append) (use s in auto)
  then show "find_product inventory code = Some p"
    by (simp add: find_product_def find_product_ref_def s(1))
qed

lemma find_product_None_iff:
  "find_product inventory code = None \<longleftrightarrow>
     (\<forall>y\<in>set inventory. item_code y \<noteq> strip (upper code))"
  by (simp add: find_product_def find_product_ref_def first_index_None)

text \<open>
  Claim C5, as the source has it. \<^verbatim>\<open>find_product\<close> compares the stored code, as it is,
  with the query in upper case and trimmed: it returns the first product whose stored
  code is exactly that string, and \<^verbatim>\<open>None\<close> when there is none. For a stored code
  without lower-case letters this is the match of the claim: the query, trimmed and with
  the case of letters ignored, equals the code. The queries \<^verbatim>\<open>"itm001"\<close> and
  \<^verbatim>\<open>" ITM001 "\<close> both find a stored \<^verbatim>\<open>ITM001\<close>.
\<close>

theorem find_product_first_exact_match:
  "(find_product inventory code = Some p \<longleftrightarrow>
      (\<exists>ys zs. inventory = ys @ p # zs \<and> item_code p = strip (upper code) \<and>
         (\<forall>y\<in>set ys. item_code y \<noteq> strip (upper code)))) \<and>
   (find_product inventory code = None \<longleftrightarrow>
      (\<forall>y\<in>set inventory. item_code y \<noteq> strip (upper code))) \<and>
   ((\<forall>c\<in>set (item_code p). \<not> is_lower c) \<longrightarrow>
      (item_code p = strip (upper code) \<longleftrightarrow> upper (strip code) = upper (item_code p))) \<and>
   find_product [widget] ''itm001'' = Some widget \<and>
   find_product [widget] '' ITM001 '' = Some widget"
proof (intro conjI impI)
  show "find_product inventory code = Some p \<longleftrightarrow>
      (\<exists>ys zs. inventory = ys @ p # zs \<and> item_code p = strip (upper code) \<and>
         (\<forall>y\<in>set ys. item_code y \<noteq> strip (upper code)))"
    by (rule find_product_Some_iff)
  show "find_product inventory code = None \<longleftrightarrow>
      (\<forall>y\<in>set inventory. item_code y \<noteq> strip (upper code))"
    by (rule find_product_None_iff)
  show "find_product [widget] ''itm001'' = Some widget" by code_simp
  show "find_product [widget] '' ITM001 '' = Some widget" by code_simp
next
  assume "\<forall>c\<in>set (item_code p). \<not> is_lower c"
  then have fixed: "upper (item_code p) = item_code p" by (rule upper_fixed)
  show "item_code p = strip (upper code) \<longleftrightarrow> upper (strip code) = upper (item_code p)"
    unfolding fixed strip_upper by (rule eq_commute)
qed

theorem find_product_first_exact_match_witness:
  "find_product [widget, gadget] '' itm001 '' = Some widget \<and>
   (\<exists>ys zs. [widget, gadget] = ys @ widget # zs \<and>
      item_code widget = strip (upper '' itm001 '') \<and>
      (\<forall>y\<in>set ys. item_code y \<noteq> strip (upper '' itm001 ''))) \<and>
   \<not> (\<exists>c\<in>set (item_code widget). is_lower c) \<and>
   upper (strip '' itm001 '') = upper (item_code widget) \<and>
   find_product [widget, gadget] ''ITM002'' = None \<and>
   item_code widget \<noteq> strip (upper ''ITM002'') \<and>
   item_code gadget \<noteq> strip (upper ''ITM002'')"
proof -
  note hit = find_product_first_exact_match [of "[widget, gadget]" "'' itm001 ''" widget]
  note miss = find_product_first_exact_match [of "[widget, gadget]" "''ITM002''" widget]
  have found: "find_product [widget, gadget] '' itm001 '' = Some widget" by code_simp
  have up: "\<forall>c\<in>set (item_code widget). \<not> is_lower c" by code_simp
  have eq: "item_code widget = strip (upper '' itm001 '')" by code_simp
  have none: "find_product [widget, gadget] ''ITM002'' = None" by code_simp
  have split: "\<exists>ys zs. [widget, gadget] = ys @ widget # zs \<and>
      item_code widget = strip (upper '' itm001 '') \<and>
      (\<forall>y\<in>set ys. item_code y \<noteq> strip (upper '' itm001 ''))"
    using hit [THEN conjunct1] found by (rule iffD1)
  have "item_code widget = strip (upper '' itm001 '') \<longleftrightarrow>
      upper (strip '' itm001 '') = upper (item_code widget)"
    using hit [THEN conjunct2, THEN conjunct2, THEN conjunct1] up by (rule mp)
  then have ci: "upper (strip '' itm001 '') = upper (item_code widget)"
    using eq by (rule iffD1)
  have all: "\<forall>y\<in>set [widget, gadget]. item_code y \<noteq> strip (upper ''ITM002'')"
    using miss [THEN conjunct2, THEN conjunct1] none by (rule iffD1)
  from up have up': "\<not> (\<exists>c\<in>set (item_code widget). is_lower c)" by blast
  from all have w: "item_code widget \<noteq> strip (upper ''ITM002'')"
    and g: "item_code gadget \<noteq> strip (upper ''ITM002'')" by simp_all
  show ?thesis
    by (intro conjI) (fact found split up' ci none w g)+
qed

text \<open>
  Claim C5 as it is written fails for a stored code in lower case: the query
  \<^verbatim>\<open>"itm001"\<close> equals the stored code \<^verbatim>\<open>itm001\<close> even letter for letter, and nothing
  is found.
\<close>

theorem find_product_lower_case_code_counterexample:
  "upper (strip ''itm001'') = upper (item_code lamp) \<and> find_product [lamp] ''itm001'' = None"
  by code_simp

subsection \<open>Delete\<close>

text \<open>
  Claim C8, as the source has it. Whether a product matches is decided by
  \<^verbatim>\<open>find_product\<close>: a stored code equals the code given, in upper case and trimmed. For
  every inventory, \<^verbatim>\<open>delete_product\<close> on a code for which \<^verbatim>\<open>find_product\<close> finds
  nothing returns \<^verbatim>\<open>False\<close> and leaves the list as it is; on a code for which it finds a
  product it returns \<^verbatim>\<open>True\<close> and removes exactly the record found (the first match):
  the records before it and after it stay, in their order.
\<close>

theorem delete_product_removes_first_match:
  "(find_product inventory code = None \<longrightarrow> delete_product inventory code = (False, inventory)) \<and>
   (\<forall>p. find_product inventory code = Some p \<longrightarrow>
      (\<exists>ys zs. inventory = ys @ p # zs \<and>
         (\<forall>y\<in>set ys. item_code y \<noteq> strip (upper code)) \<and>
         delete_product inventory code = (True, ys @ zs)))"
proof (intro conjI allI impI)
  assume "find_product inventory code = None"
  then show "delete_product inventory code = (False, inventory)"
    by (simp add: find_product_None delete_product_def)
next
  fix p
  assume "find_product inventory code = Some p"
  then obtain i where i: "find_product_ref inventory code = Some i" "i < length inventory"
    "inventory ! i = p"
    "\<forall>y\<in>set (take i inventory). item_code y \<noteq> strip (upper code)"
    by (rule find_product_SomeD)
  have "inventory = take i inventory @ p # drop (Suc i) inventory"
    using id_take_nth_drop [OF i(2)] i(3) by simp
  moreover have "delete_product inventory code = (True, take i inventory @ drop (Suc i) inventory)"
    using i(1) by (simp add: delete_product_def)
  ultimately show "\<exists>ys zs. inventory = ys @ p # zs \<and>
         (\<forall>y\<in>set ys. item_code y \<noteq> strip (upper code)) \<and>
         delete_product inventory code = (True, ys @ zs)"
    using i(4) by blast
qed

theorem delete_product_removes_first_match_witness:
  "find_product [widget, gadget] ''ITM009'' = None \<and>
   delete_product [widget, gadget] ''ITM009'' = (False, [widget, gadget]) \<and>
   find_product [widget, gadget] '' itm003 '' = Some gadget \<and>
   (\<exists>ys zs. [widget, gadget] = ys @ gadget # zs \<and>
      (\<forall>y\<in>set ys. item_code y \<noteq> strip (upper '' itm003 '')) \<and>
      delete_product [widget, gadget] '' itm003 '' = (True, ys @ zs))"
proof -
  have none: "find_product [widget, gadget] ''ITM009'' = None"
    by code_simp
  have some: "find_product [widget, gadget] '' itm003 '' = Some gadget"
    by code_simp
  from delete_product_removes_first_match [of "[widget, gadget]" "''ITM009''"] none
  have "delete_product [widget, gadget] ''ITM009'' = (False, [widget, gadget])"
    by blast
  moreover from delete_product_removes_first_match [of "[widget, gadget]" "'' itm003 ''"] some
  have "\<exists>ys zs. [widget, gadget] = ys @ gadget # zs \<and>
      (\<forall>y\<in>set ys. item_code y \<noteq> strip (upper '' itm003 '')) \<and>
      delete_product [widget, gadget] '' itm003 '' = (True, ys @ zs)"
    by blast
  ultimately show ?thesis using none some by blast
qed

text \<open>
  Claim C8 as it is written speaks of a stored product that matches the code. The product
  with the stored code \<^verbatim>\<open>itm001\<close> matches the code \<^verbatim>\<open>itm001\<close> letter for letter; the
  delete with that code fails when the product is alone, and removes another record when
  the code \<^verbatim>\<open>ITM001\<close> is stored too.
\<close>

theorem delete_product_stored_code_counterexample:
  "item_code lamp = ''itm001'' \<and>
   delete_product [lamp] ''itm001'' = (False, [lamp]) \<and>
   delete_product [lamp, widget] ''itm001'' = (True, [lamp])"
  by code_simp

subsection \<open>Update\<close>

text \<open>
  Claim C1. An update with an invalid field is to fail and to apply neither field. The
  source writes the stock before it looks at the price: with a valid stock and an invalid
  price the call returns \<^verbatim>\<open>False\<close>, and the stock of the product has changed from 2 to 5.
\<close>

theorem update_product_details_partial_write:
  "update_product_details [widget] ''ITM001'' (Some 5) (Some 0) =
     (False, [\<lparr>name = ''Widget'', price = 10, stock = 5, item_code = ''ITM001''\<rparr>])"
  by code_simp

text \<open>
  Claim C7, as the source has it. When \<^verbatim>\<open>find_product\<close> finds a product for the code (a
  stored code equals the code given, in upper case and trimmed), an update with a valid
  stock only changes the stock of the product found, the first match, and nothing else:
  its name, price and code, and all other records, stay. An update with a valid price
  only changes the price alone.
\<close>

theorem update_product_details_frame:
  assumes "find_product inventory code = Some p"
  shows "\<exists>ys zs. inventory = ys @ p # zs \<and>
     (\<forall>y\<in>set ys. item_code y \<noteq> strip (upper code)) \<and>
     (\<forall>s. 0 \<le> s \<longrightarrow>
        update_product_details inventory code (Some s) None =
          (True, ys @ \<lparr>name = name p, price = price p, stock = s, item_code = item_code p\<rparr> # zs)) \<and>
     (\<forall>r. 0 < r \<longrightarrow>
        update_product_details inventory code None (Some r) =
          (True, ys @ \<lparr>name = name p, price = r, stock = stock p, item_code = item_code p\<rparr> # zs))"
proof -
  from assms obtain i where i: "find_product_ref inventory code = Some i" "i < length inventory"
    "inventory ! i = p" "inventory = take i inventory @ p # drop (Suc i) inventory"
    "\<forall>y\<in>set (take i inventory). item_code y \<noteq> strip (upper code)"
    by (rule find_product_split)
  let ?ys = "take i inventory" and ?zs = "drop (Suc i) inventory"
  have upd: "inventory[i := q] = ?ys @ q # ?zs" for q
    using i(2) by (rule upd_conv_take_nth_drop)
  have st: "update_product_details inventory code (Some s) None =
      (True, ?ys @ \<lparr>name = name p, price = price p, stock = s, item_code = item_code p\<rparr> # ?zs)"
    if "0 \<le> s" for s
    using that i(1,3) by (simp add: update_product_details_def upd)
  have pr: "update_product_details inventory code None (Some r) =
      (True, ?ys @ \<lparr>name = name p, price = r, stock = stock p, item_code = item_code p\<rparr> # ?zs)"
    if "0 < r" for r
    using that i(1,3) by (simp add: update_product_details_def upd)
  from i(4,5) st pr show ?thesis by blast
qed

theorem update_product_details_frame_witness:
  "find_product [widget, gadget] ''itm003'' = Some gadget \<and>
   (\<exists>ys zs. [widget, gadget] = ys @ gadget # zs \<and>
     (\<forall>y\<in>set ys. item_code y \<noteq> strip (upper ''itm003'')) \<and>
     (\<forall>s. 0 \<le> s \<longrightarrow>
        update_product_details [widget, gadget] ''itm003'' (Some s) None =
          (True, ys @ \<lparr>name = name gadget, price = price gadget, stock = s,
                        item_code = item_code gadget\<rparr> # zs)) \<and>
     (\<forall>r. 0 < r \<longrightarrow>
        update_product_details [widget, gadget] ''itm003'' None (Some r) =
          (True, ys @ \<lparr>name = name gadget, price = r, stock = stock gadget,
                        item_code = item_code gadget\<rparr> # zs)))"
proof -
  have found: "find_product [widget, gadget] ''itm003'' = Some gadget"
    by code_simp
  from update_product_details_frame [OF found] found show ?thesis by blast
qed

text \<open>
  Claim C7 as it is written speaks of an inventory that contains a product with the code
  given. With the stored codes \<^verbatim>\<open>itm001\<close> and \<^verbatim>\<open>ITM001\<close>, the update with the code
  \<^verbatim>\<open>itm001\<close> leaves that product alone and changes the stock of the other one.
\<close>

theorem update_product_details_stored_code_counterexample:
  "lamp \<in> set [lamp, widget] \<and> item_code lamp = ''itm001'' \<and>
   update_product_details [lamp, widget] ''itm001'' (Some 9) None =
     (True, [lamp, \<lparr>name = ''Widget'', price = 10, stock = 9, item_code = ''ITM001''\<rparr>])"
  by code_simp

subsection \<open>Stored codes that are not in normal form\<close>

lemma strip_upper_normal: "\<not> unnormalised (strip (upper code))"
proof -
  have "\<forall>c\<in>set (strip (upper code)). \<not> is_lower c"
    using set_strip [of "upper code"] upper_no_lower [of code] by blast
  moreover have "strip (upper code) \<noteq> [] \<longrightarrow>
      \<not> is_space (hd (strip (upper code))) \<and> \<not> is_space (last (strip (upper code)))"
    using strip_hd [of "upper code"] strip_last [of "upper code"] by blast
  ultimately show ?thesis unfolding unnormalised_def by blast
qed

lemma unnormalised_no_match:
  assumes "unnormalised (item_code p)"
  shows "item_code p \<noteq> strip (upper code)"
proof
  assume "item_code p = strip (upper code)"
  with assms have "unnormalised (strip (upper code))" by (simp only:)
  with strip_upper_normal [of code] show False by (rule notE)
qed

lemma update_product_details_shape:
  "snd (update_product_details inventory code ns np) = inventory \<or>
   (\<exists>i q. find_product_ref inventory code = Some i \<and>
      snd (update_product_details inventory code ns np) = inventory[i := q])"
proof (cases "find_product_ref inventory code")
  case None
  then show ?thesis by (simp add: update_product_details_def)
next
  case (Some i)
  have "snd (update_product_details inventory code ns np) = inventory \<or>
      (\<exists>q. snd (update_product_details inventory code ns np) = inventory[i := q])"
    by (cases ns; cases np) (auto simp: update_product_details_def Some)
  with Some show ?thesis by blast
qed

lemma member_list_update:
  assumes "p \<in> set xs" "i < length xs" "xs ! i \<noteq> p"
  shows "p \<in> set (xs[i := q])"
proof -
  from assms(1) obtain j where j: "j < length xs" "xs ! j = p"
    by (auto simp: in_set_conv_nth)
  with assms(3) have "j \<noteq> i" by auto
  with j have "xs[i := q] ! j = p" "j < length (xs[i := q])" by simp_all
  then show ?thesis using nth_mem [of j "xs[i := q]"] by simp
qed

lemma find_product_ref_Some:
  assumes "find_product_ref inventory code = Some i"
  shows "i < length inventory" "item_code (inventory ! i) = strip (upper code)"
  using first_index_Some [OF assms [unfolded find_product_ref_def]] by auto

lemma update_keeps_unnormalised:
  assumes "p \<in> set inventory" "unnormalised (item_code p)"
  shows "p \<in> set (snd (update_product_details inventory code ns np))"
proof -
  from update_product_details_shape [of inventory code ns np]
  show ?thesis
  proof
    assume "snd (update_product_details inventory code ns np) = inventory"
    with assms(1) show ?thesis by simp
  next
    assume "\<exists>i q. find_product_ref inventory code = Some i \<and>
      snd (update_product_details inventory code ns np) = inventory[i := q]"
    then obtain i q where i: "find_product_ref inventory code = Some i"
      and r: "snd (update_product_details inventory code ns np) = inventory[i := q]"
      by blast
    from find_product_ref_Some [OF i] unnormalised_no_match [OF assms(2), of code]
    have "i < length inventory" "inventory ! i \<noteq> p" by auto
    with assms(1) show ?thesis unfolding r by (rule member_list_update)
  qed
qed

lemma delete_keeps_unnormalised:
  assumes "p \<in> set inventory" "unnormalised (item_code p)"
  shows "p \<in> set (snd (delete_product inventory code))"
proof (cases "find_product_ref inventory code")
  case None
  with assms(1) show ?thesis by (simp add: delete_product_def)
next
  case (Some i)
  from find_product_ref_Some [OF Some] unnormalised_no_match [OF assms(2), of code]
  have i: "i < length inventory" "inventory ! i \<noteq> p" by auto
  from assms(1) have "p \<in> set (take i inventory @ inventory ! i # drop (Suc i) inventory)"
    by (simp only: id_take_nth_drop [OF i(1), symmetric])
  with i(2) have "p \<in> set (take i inventory @ drop (Suc i) inventory)" by auto
  with Some show ?thesis by (simp add: delete_product_def)
qed

text \<open>
  Claim C10, as the source has it. \<^verbatim>\<open>find_product\<close> normalises the query and never
  the stored code: a product is returned only if its stored code is exactly the query in
  upper case and trimmed. A stored product whose code contains a lower-case letter or
  begins or ends with white space is therefore found by no query; no update changes it and
  no delete removes it; and an update or a delete called with its own code reports
  failure whenever no other stored code equals that code in upper case and trimmed.
\<close>

theorem unnormalised_code_never_matched:
  "(find_product inventory code = Some p \<longrightarrow> item_code p = strip (upper code)) \<and>
   (p \<in> set inventory \<and> unnormalised (item_code p) \<longrightarrow>
      find_product inventory code \<noteq> Some p \<and>
      p \<in> set (snd (update_product_details inventory code ns np)) \<and>
      p \<in> set (snd (delete_product inventory code)) \<and>
      ((\<forall>q\<in>set inventory. item_code q \<noteq> strip (upper (item_code p))) \<longrightarrow>
         update_product_details inventory (item_code p) ns np = (False, inventory) \<and>
         delete_product inventory (item_code p) = (False, inventory)))"
proof (intro conjI impI)
  assume "find_product inventory code = Some p"
  then show "item_code p = strip (upper code)" by (rule find_product_SomeD)
next
  assume a: "p \<in> set inventory \<and> unnormalised (item_code p)"
  show "find_product inventory code \<noteq> Some p"
  proof
    assume "find_product inventory code = Some p"
    then have "item_code p = strip (upper code)" by (rule find_product_SomeD)
    with a unnormalised_no_match [of p code] show False by blast
  qed
  from a show "p \<in> set (snd (update_product_details inventory code ns np))"
    by (simp add: update_keeps_unnormalised)
  from a show "p \<in> set (snd (delete_product inventory code))"
    by (simp add: delete_keeps_unnormalised)
next
  assume "\<forall>q\<in>set inventory. item_code q \<noteq> strip (upper (item_code p))"
  then have none: "find_product_ref inventory (item_code p) = None"
    by (simp add: find_product_ref_def first_index_None)
  from none show "update_product_details inventory (item_code p) ns np = (False, inventory)"
    by (simp add: update_product_details_def)
  from none show "delete_product inventory (item_code p) = (False, inventory)"
    by (simp add: delete_product_def)
qed

theorem unnormalised_code_never_matched_witness:
  "lamp \<in> set [lamp, gadget] \<and> unnormalised (item_code lamp) \<and>
   item_code lamp \<noteq> strip (upper (item_code lamp)) \<and>
   item_code gadget \<noteq> strip (upper (item_code lamp)) \<and>
   find_product [lamp, gadget] ''itm001'' \<noteq> Some lamp \<and>
   lamp \<in> set (snd (update_product_details [lamp, gadget] ''itm001'' (Some 1) None)) \<and>
   lamp \<in> set (snd (delete_product [lamp, gadget] ''itm001'')) \<and>
   update_product_details [lamp, gadget] (item_code lamp) (Some 1) None = (False, [lamp, gadget]) \<and>
   delete_product [lamp, gadget] (item_code lamp) = (False, [lamp, gadget]) \<and>
   find_product [lamp, gadget] ''itm003'' = Some gadget \<and>
   item_code gadget = strip (upper ''itm003'')"
proof -
  note t = unnormalised_code_never_matched [of "[lamp, gadget]" "''itm001''" lamp "Some 1" None]
  note u = unnormalised_code_never_matched [of "[lamp, gadget]" "''itm003''" gadget "Some 1" None]
  have mem: "lamp \<in> set [lamp, gadget]" by simp
  have bad: "unnormalised (item_code lamp)" by code_simp
  have a1: "item_code lamp \<noteq> strip (upper (item_code lamp))" by code_simp
  have a2: "item_code gadget \<noteq> strip (upper (item_code lamp))" by code_simp
  from a1 a2
  have alone: "\<forall>q\<in>set [lamp, gadget]. item_code q \<noteq> strip (upper (item_code lamp))"
    by simp
  have found: "find_product [lamp, gadget] ''itm003'' = Some gadget" by code_simp
  have code: "item_code gadget = strip (upper ''itm003'')"
    using u [THEN conjunct1] found by (rule mp)
  have rest: "find_product [lamp, gadget] ''itm001'' \<noteq> Some lamp \<and>
      lamp \<in> set (snd (update_product_details [lamp, gadget] ''itm001'' (Some 1) None)) \<and>
      lamp \<in> set (snd (delete_product [lamp, gadget] ''itm001'')) \<and>
      ((\<forall>q\<in>set [lamp, gadget]. item_code q \<noteq> strip (upper (item_code lamp))) \<longrightarrow>
         update_product_details [lamp, gadget] (item_code lamp) (Some 1) None = (False, [lamp, gadget]) \<and>
         delete_product [lamp, gadget] (item_code lamp) = (False, [lamp, gadget]))"
    using t [THEN conjunct2] conjI [OF mem bad] by (rule mp)
  from rest alone
  have fail: "update_product_details [lamp, gadget] (item_code lamp) (Some 1) None =
        (False, [lamp, gadget]) \<and>
      delete_product [lamp, gadget] (item_code lamp) = (False, [lamp, gadget])"
    by blast
  from rest fail mem bad a1 a2 found code show ?thesis by blast
qed

text \<open>
  Claim C10 as it is written lets update and delete on such a product always fail. With
  the stored codes \<^verbatim>\<open>itm001\<close> and \<^verbatim>\<open>ITM001\<close> side by side, the calls with the code
  \<^verbatim>\<open>itm001\<close> find the other product and report success.
\<close>

theorem unnormalised_code_other_match_counterexample:
  "lamp \<in> set [lamp, widget] \<and> is_lower (item_code lamp ! 0) \<and>
   delete_product [lamp, widget] (item_code lamp) = (True, [lamp]) \<and>
   update_product_details [lamp, widget] (item_code lamp) (Some 9) None =
     (True, [lamp, \<lparr>name = ''Widget'', price = 10, stock = 9, item_code = ''ITM001''\<rparr>])"
  by code_simp

subsection \<open>Reading and writing numbers\<close>

lemma is_digit_digit_char: "d < 10 \<Longrightarrow> is_digit (digit_char d)"
proof -
  assume d: "d < 10"
  then have "(48 + d) mod 256 = 48 + d" by simp
  then have "(of_char (digit_char d) :: nat) = 48 + d" by (simp add: digit_char_def)
  with d show ?thesis unfolding is_digit_def by arith
qed

lemma digit_val_digit_char: "d < 10 \<Longrightarrow> digit_val (digit_char d) = d"
proof -
  assume d: "d < 10"
  then have "(48 + d) mod 256 = 48 + d" by simp
  then have "(of_char (digit_char d) :: nat) = 48 + d" by (simp add: digit_char_def)
  then show ?thesis by (simp add: digit_val_def)
qed

lemma is_digit_not_space: "is_digit c \<Longrightarrow> \<not> is_c_space c"
  unfolding is_digit_def is_c_space_def by arith

lemma is_digit_not_sign: "is_digit c \<Longrightarrow> c \<noteq> CHR ''-'' \<and> c \<noteq> CHR ''+''"
  unfolding is_digit_def by auto

lemma parse_digits_append:
  "\<forall>c\<in>set ds. is_digit c \<Longrightarrow> ds \<noteq> [] \<Longrightarrow>
     parse_digits acc prev (ds @ rest) =
       parse_digits (foldl (\<lambda>a c. 10 * a + digit_val c) acc ds) True rest"
proof (induction ds arbitrary: acc prev)
  case Nil
  then show ?case by simp
next
  case (Cons d ds)
  show ?case
  proof (cases "ds = []")
    case True
    with Cons.prems show ?thesis by simp
  next
    case False
    with Cons.prems Cons.IH [of "10 * acc + digit_val d" True] show ?thesis by simp
  qed
qed

lemma parse_digits_all_digits:
  assumes "\<forall>c\<in>set ds. is_digit c" "ds \<noteq> []"
  shows "parse_digits acc prev ds = Some (foldl (\<lambda>a c. 10 * a + digit_val c) acc ds)"
  using parse_digits_append [OF assms, of acc prev "[]"] by simp


lemma string_of_nat_digits: "\<forall>c\<in>set (string_of_nat n). is_digit c"
proof (induction n rule: string_of_nat.induct)
  case (1 n)
  show ?case
  proof (cases "n < 10")
    case True
    then show ?thesis by (simp add: string_of_nat.simps [of n] is_digit_digit_char)
  next
    case False
    with 1 show ?thesis by (simp add: string_of_nat.simps [of n] is_digit_digit_char)
  qed
qed

lemma string_of_nat_nonempty: "string_of_nat n \<noteq> []"
  by (simp add: string_of_nat.simps [of n])

lemma string_of_nat_value:
  "foldl (\<lambda>a c. 10 * a + digit_val c) 0 (string_of_nat n) = n"
proof (induction n rule: string_of_nat.induct)
  case (1 n)
  show ?case
  proof (cases "n < 10")
    case True
    then show ?thesis by (simp add: string_of_nat.simps [of n] digit_val_digit_char)
  next
    case False
    with 1 show ?thesis by (simp add: string_of_nat.simps [of n] digit_val_digit_char)
  qed
qed

lemma foldl_zeros:
  "foldl (\<lambda>a c. 10 * a + digit_val c) 0 (replicate k CHR ''0'' @ ds) =
     foldl (\<lambda>a c. 10 * a + digit_val c) 0 ds"
  by (induction k) (simp_all add: digit_val_def)

lemma value_zero_pad:
  "foldl (\<lambda>a c. 10 * a + digit_val c) 0 (zero_pad w ds) =
     foldl (\<lambda>a c. 10 * a + digit_val c) 0 ds"
  unfolding zero_pad_def by (rule foldl_zeros)

lemma is_digit_zero: "is_digit CHR ''0''"
  by (simp add: is_digit_def)

lemma zero_pad_digits: "\<forall>c\<in>set (zero_pad w (string_of_nat n)). is_digit c"
  using string_of_nat_digits [of n] by (auto simp: zero_pad_def is_digit_zero)

lemma zero_pad_nonempty: "zero_pad w (string_of_nat n) \<noteq> []"
  by (simp add: zero_pad_def string_of_nat_nonempty)

lemma parse_zero_pad:
  "parse_digits 0 prev (zero_pad w (string_of_nat n)) = Some n"
proof -
  have "parse_digits 0 prev (zero_pad w (string_of_nat n)) =
      Some (foldl (\<lambda>a c. 10 * a + digit_val c) 0 (zero_pad w (string_of_nat n)))"
    using zero_pad_digits zero_pad_nonempty by (rule parse_digits_all_digits)
  also have "\<dots> = Some n" by (simp only: value_zero_pad string_of_nat_value)
  finally show ?thesis .
qed

lemma strip_digits:
  assumes "\<forall>c\<in>set ds. is_digit c" "ds \<noteq> []"
  shows "strip_by is_c_space ds = ds"
proof (rule strip_by_id [OF assms(2)])
  from assms have "is_digit (hd ds)" "is_digit (last ds)" by simp_all
  then show "\<not> is_c_space (hd ds)" "\<not> is_c_space (last ds)"
    by (simp_all add: is_digit_not_space)
qed


lemma filter_digits: "\<forall>c\<in>set ds. is_digit c \<Longrightarrow> filter is_digit ds = ds"
  by (rule filter_True)

lemma py_digits_all_digits:
  assumes "\<forall>c\<in>set ds. is_digit c" "ds \<noteq> []" "length ds \<le> max_str_digits"
  shows "py_digits ds = Some (foldl (\<lambda>a c. 10 * a + digit_val c) 0 ds)"
  using assms(3) by (simp add: py_digits_def filter_digits [OF assms(1)]
      parse_digits_all_digits [OF assms(1,2)])

lemma py_digits_too_long:
  assumes "\<forall>c\<in>set ds. is_digit c" "max_str_digits < length ds"
  shows "py_digits ds = None"
  using assms(2) by (simp add: py_digits_def filter_digits [OF assms(1)])

lemma py_int_unsigned:
  assumes "\<forall>c\<in>set ds. is_digit c" "ds \<noteq> []"
  shows "py_int ds = map_option int (py_digits ds)"
proof -
  from assms(2) obtain c cs where ds: "ds = c # cs" by (cases ds) auto
  with assms(1) have "is_digit c" by simp
  then have sign: "c \<noteq> CHR ''-''" "c \<noteq> CHR ''+''" using is_digit_not_sign by blast+
  have "py_int ds = (case ds of [] \<Rightarrow> None
      | c # cs \<Rightarrow>
          if c = CHR ''-'' then map_option (\<lambda>n. - int n) (py_digits cs)
          else if c = CHR ''+'' then map_option int (py_digits cs)
          else map_option int (py_digits (c # cs)))"
    by (simp only: py_int_def strip_digits [OF assms])
  also have "\<dots> = map_option int (py_digits (c # cs))"
    unfolding ds using sign by (simp only: list.case if_False)
  finally show ?thesis by (simp only: ds)
qed

lemma py_int_digits:
  assumes "\<forall>c\<in>set ds. is_digit c" "ds \<noteq> []" "length ds \<le> max_str_digits"
  shows "py_int ds = Some (int (foldl (\<lambda>a c. 10 * a + digit_val c) 0 ds))"
  by (simp add: py_int_unsigned [OF assms(1,2)] py_digits_all_digits [OF assms])

lemma py_int_too_long:
  assumes "\<forall>c\<in>set ds. is_digit c" "max_str_digits < length ds"
  shows "py_int ds = None"
proof -
  from assms(2) have "ds \<noteq> []" by auto
  with assms show ?thesis by (simp add: py_int_unsigned py_digits_too_long)
qed

lemma length_zero_pad: "length (zero_pad w s) = max w (length s)"
  by (simp add: zero_pad_def)

lemma length_string_of_nat: "0 < k \<Longrightarrow> length (string_of_nat m) \<le> k \<longleftrightarrow> m < 10 ^ k"
proof (induction m arbitrary: k rule: string_of_nat.induct)
  case (1 m)
  show ?case
  proof (cases "m < 10")
    case True
    have "(10::nat) ^ 1 \<le> 10 ^ k" using "1.prems" by (intro power_increasing) simp_all
    with True have "m < 10 ^ k" by simp
    with True "1.prems" show ?thesis by (simp add: string_of_nat.simps [of m])
  next
    case False
    show ?thesis
    proof (cases "k = 1")
      case True
      with False show ?thesis by (simp add: string_of_nat.simps [of m] string_of_nat_nonempty
            Suc_le_eq)
    next
      case k: False
      with "1.prems" obtain j where j: "k = Suc j" "0 < j" by (cases k) auto
      from "1.IH" [OF False j(2)]
      have "length (string_of_nat (m div 10)) \<le> j \<longleftrightarrow> m div 10 < 10 ^ j" .
      moreover have "m div 10 < 10 ^ j \<longleftrightarrow> m < 10 ^ Suc j"
        by (simp add: div_less_iff_less_mult mult.commute)
      ultimately show ?thesis using False by (simp add: string_of_nat.simps [of m] j(1))
    qed
  qed
qed

lemma digits_within_limit:
  "length (string_of_nat (nat \<bar>n\<bar>)) \<le> max_str_digits \<longleftrightarrow> \<bar>n\<bar> < 10 ^ max_str_digits"
proof -
  have pos: "0 < max_str_digits" by (simp add: max_str_digits_def)
  have "length (string_of_nat (nat \<bar>n\<bar>)) \<le> max_str_digits \<longleftrightarrow> nat \<bar>n\<bar> < 10 ^ max_str_digits"
    using pos by (rule length_string_of_nat)
  also have "\<dots> \<longleftrightarrow> \<bar>n\<bar> < 10 ^ max_str_digits"
    by (simp add: nat_less_iff)
  finally show ?thesis .
qed

lemma format_03d_eq:
  "format_03d n =
     (if \<bar>n\<bar> < 10 ^ max_str_digits then Inr (padded_decimal n) else Inl ValueError)"
  using digits_within_limit [of n] by (auto simp: format_03d_def not_less)

lemma py_int_padded:
  assumes "length (string_of_nat (nat \<bar>n\<bar>)) \<le> max_str_digits"
  shows "py_int (padded_decimal n) = Some n"
proof (cases "n < 0")
  case False
  let ?ds = "zero_pad 3 (string_of_nat (nat n))"
  from assms False have "length ?ds \<le> max_str_digits"
    by (simp add: length_zero_pad max_str_digits_def)
  with zero_pad_digits zero_pad_nonempty
  have "py_int ?ds = Some (int (foldl (\<lambda>a c. 10 * a + digit_val c) 0 ?ds))"
    by (rule py_int_digits)
  also have "\<dots> = Some (int (nat n))"
    by (simp only: value_zero_pad string_of_nat_value)
  finally show ?thesis using False by (simp add: padded_decimal_def)
next
  case True
  let ?ds = "zero_pad 2 (string_of_nat (nat (- n)))"
  from True have abs: "nat \<bar>n\<bar> = nat (- n)" by simp
  from assms have len: "length ?ds \<le> max_str_digits"
    unfolding abs by (simp add: length_zero_pad max_str_digits_def)
  have last: "\<not> is_c_space (last (CHR ''-'' # ?ds))"
    using zero_pad_digits [of 2 "nat (- n)"] zero_pad_nonempty [of 2 "nat (- n)"]
    by (simp add: is_digit_not_space)
  have hd: "\<not> is_c_space (hd (CHR ''-'' # ?ds))" by (simp add: is_c_space_def)
  have "strip_by is_c_space (CHR ''-'' # ?ds) = CHR ''-'' # ?ds"
    by (rule strip_by_id [OF _ hd last]) simp
  then have "py_int (CHR ''-'' # ?ds) = map_option (\<lambda>k. - int k) (py_digits ?ds)"
    by (simp add: py_int_def)
  also have "py_digits ?ds = Some (foldl (\<lambda>a c. 10 * a + digit_val c) 0 ?ds)"
    using zero_pad_digits zero_pad_nonempty len by (rule py_digits_all_digits)
  also have "\<dots> = Some (nat (- n))"
    by (simp only: value_zero_pad string_of_nat_value)
  finally show ?thesis using True by (simp add: padded_decimal_def)
qed

lemma format_03d_Inr:
  assumes "format_03d n = Inr s"
  shows "s = padded_decimal n" "py_int s = Some n"
proof -
  from assms have len: "length (string_of_nat (nat \<bar>n\<bar>)) \<le> max_str_digits"
    and s: "s = padded_decimal n"
    by (auto simp: format_03d_def split: if_splits)
  show "s = padded_decimal n" by (fact s)
  show "py_int s = Some n" unfolding s using len by (rule py_int_padded)
qed

subsection \<open>Code generation\<close>

lemma item_code_numbers_Inr:
  assumes "\<forall>p\<in>set inventory. startswith (item_code p) ''ITM'' \<longrightarrow>
             py_int (drop 3 (item_code p)) \<noteq> None"
  shows "\<exists>ns. item_code_numbers inventory = Inr ns \<and>
           set ns = {n. \<exists>p\<in>set inventory. numbered p n}"
  using assms
proof (induction inventory)
  case Nil
  then show ?case by simp
next
  case (Cons p ps)
  then obtain ns where ns: "item_code_numbers ps = Inr ns"
    "set ns = {n. \<exists>q\<in>set ps. numbered q n}"
    by auto
  show ?case
  proof (cases "startswith (item_code p) ''ITM''")
    case False
    then have "\<And>n. \<not> numbered p n" by (simp add: numbered_def)
    with False ns show ?thesis by simp
  next
    case True
    with Cons.prems obtain k where k: "py_int (drop 3 (item_code p)) = Some k" by auto
    with True have "\<And>n. numbered p n \<longleftrightarrow> n = k" by (auto simp: numbered_def)
    with True k ns show ?thesis by auto
  qed
qed

lemma item_code_numbers_Inl:
  "item_code_numbers inventory = Inl e \<Longrightarrow>
     e = ValueError \<and>
     (\<exists>p\<in>set inventory. startswith (item_code p) ''ITM'' \<and> py_int (drop 3 (item_code p)) = None)"
  by (induction inventory) (auto split: if_splits option.splits sum.splits)

lemma item_code_numbers_raises:
  "\<exists>p\<in>set inventory. startswith (item_code p) ''ITM'' \<and> py_int (drop 3 (item_code p)) = None
     \<Longrightarrow> item_code_numbers inventory = Inl ValueError"
proof (induction inventory)
  case Nil
  then show ?case by simp
next
  case (Cons p ps)
  show ?case
  proof (cases "startswith (item_code p) ''ITM'' \<and> py_int (drop 3 (item_code p)) = None")
    case True
    then show ?thesis by simp
  next
    case False
    with Cons.prems have "\<exists>q\<in>set ps. startswith (item_code q) ''ITM'' \<and>
        py_int (drop 3 (item_code q)) = None" by auto
    then have "item_code_numbers ps = Inl ValueError" by (rule Cons.IH)
    then show ?thesis by (simp split: option.splits)
  qed
qed

lemma foldl_max_greatest:
  "foldl max c cs \<in> set (c # cs) \<and> (\<forall>x\<in>set (c # cs). x \<le> foldl max (c::int) cs)"
proof (induction cs arbitrary: c)
  case Nil
  show ?case by simp
next
  case (Cons d ds)
  from Cons.IH [of "max c d"] show ?case by (auto simp: max_def split: if_splits)
qed

lemma ITM001: "''ITM001'' = ''ITM'' @ padded_decimal 1"
  by code_simp

lemma py_int_padded_small:
  assumes "\<bar>k\<bar> < 10 ^ max_str_digits"
  shows "py_int (padded_decimal k) = Some k"
proof -
  from assms have "format_03d k = Inr (padded_decimal k)" by (simp add: format_03d_eq)
  then show ?thesis by (rule format_03d_Inr)
qed

lemma one_small: "\<bar>1::int\<bar> < 10 ^ max_str_digits"
proof -
  have "(10::int) ^ 1 \<le> 10 ^ max_str_digits"
    by (intro power_increasing) (simp_all add: max_str_digits_def)
  then show ?thesis by simp
qed

lemma generate_item_code_unreadable:
  assumes "\<exists>p\<in>set inventory. startswith (item_code p) ''ITM'' \<and>
             py_int (drop 3 (item_code p)) = None"
  shows "generate_item_code inventory = Inl ValueError"
proof -
  from assms have "item_code_numbers inventory = Inl ValueError"
    by (rule item_code_numbers_raises)
  moreover from assms have "inventory \<noteq> []" by auto
  ultimately show ?thesis by (simp add: generate_item_code_def)
qed

lemma generate_item_code_readable:
  assumes ok: "\<forall>p\<in>set inventory. startswith (item_code p) ''ITM'' \<longrightarrow>
                 py_int (drop 3 (item_code p)) \<noteq> None"
  shows "if \<exists>p\<in>set inventory. startswith (item_code p) ''ITM''
         then \<exists>n. (\<exists>p\<in>set inventory. numbered p n) \<and>
                (\<forall>p\<in>set inventory. \<forall>m. numbered p m \<longrightarrow> m \<le> n) \<and>
                generate_item_code inventory =
                  (if \<bar>n + 1\<bar> < 10 ^ max_str_digits
                   then Inr (''ITM'' @ padded_decimal (n + 1)) else Inl ValueError)
         else generate_item_code inventory = Inr ''ITM001''"
proof (cases "inventory = []")
  case True
  then show ?thesis by (simp add: generate_item_code_def)
next
  case False
  from item_code_numbers_Inr [OF ok] obtain ns where ns: "item_code_numbers inventory = Inr ns"
    "set ns = {n. \<exists>p\<in>set inventory. numbered p n}" by blast
  from False ns(1)
  have gen: "generate_item_code inventory =
      (case format_03d (case ns of [] \<Rightarrow> 1 | c # cs \<Rightarrow> foldl max c cs + 1) of
         Inl e \<Rightarrow> Inl e | Inr digits \<Rightarrow> Inr (''ITM'' @ digits))"
    by (simp add: generate_item_code_def)
  show ?thesis
  proof (cases ns)
    case Nil
    with ns(2) have none: "\<forall>p\<in>set inventory. \<forall>n. \<not> numbered p n" by auto
    have "\<not> (\<exists>p\<in>set inventory. startswith (item_code p) ''ITM'')"
    proof
      assume "\<exists>p\<in>set inventory. startswith (item_code p) ''ITM''"
      then obtain p where p: "p \<in> set inventory" "startswith (item_code p) ''ITM''" by blast
      with ok obtain k where "py_int (drop 3 (item_code p)) = Some k" by auto
      with p have "numbered p k" by (simp add: numbered_def)
      with none p(1) show False by blast
    qed
    moreover from gen Nil have "generate_item_code inventory = Inr ''ITM001''"
      using one_small by (simp add: format_03d_eq ITM001)
    ultimately show ?thesis by simp
  next
    case (Cons c cs)
    let ?n = "foldl max c cs"
    from foldl_max_greatest [of c cs] Cons
    have mx: "?n \<in> set ns" "\<forall>x\<in>set ns. x \<le> ?n" by auto
    from mx(1) ns(2) have ex: "\<exists>p\<in>set inventory. numbered p ?n" by auto
    then have starts: "\<exists>p\<in>set inventory. startswith (item_code p) ''ITM''"
      by (auto simp: numbered_def)
    from mx(2) ns(2) have le: "\<forall>p\<in>set inventory. \<forall>m. numbered p m \<longrightarrow> m \<le> ?n" by auto
    from gen Cons have "generate_item_code inventory =
        (if \<bar>?n + 1\<bar> < 10 ^ max_str_digits
         then Inr (''ITM'' @ padded_decimal (?n + 1)) else Inl ValueError)"
      by (simp add: format_03d_eq)
    with ex le have "\<exists>n. (\<exists>p\<in>set inventory. numbered p n) \<and>
                (\<forall>p\<in>set inventory. \<forall>m. numbered p m \<longrightarrow> m \<le> n) \<and>
                generate_item_code inventory =
                  (if \<bar>n + 1\<bar> < 10 ^ max_str_digits
                   then Inr (''ITM'' @ padded_decimal (n + 1)) else Inl ValueError)"
      by blast
    with starts show ?thesis by simp
  qed
qed

lemma generate_item_code_Inr_readable:
  assumes "generate_item_code inventory = Inr code"
  shows "\<forall>p\<in>set inventory. startswith (item_code p) ''ITM'' \<longrightarrow>
           py_int (drop 3 (item_code p)) \<noteq> None"
proof (rule ccontr)
  assume "\<not> ?thesis"
  then have "generate_item_code inventory = Inl ValueError"
    by (intro generate_item_code_unreadable) auto
  with assms show False by simp
qed

lemma generate_item_code_returns:
  assumes "generate_item_code inventory = Inr code"
  shows "if \<exists>p\<in>set inventory. startswith (item_code p) ''ITM''
         then \<exists>n. code = ''ITM'' @ padded_decimal (n + 1) \<and> \<bar>n + 1\<bar> < 10 ^ max_str_digits \<and>
                (\<exists>p\<in>set inventory. numbered p n) \<and>
                (\<forall>p\<in>set inventory. \<forall>m. numbered p m \<longrightarrow> m \<le> n)
         else code = ''ITM001''"
proof (cases "\<exists>p\<in>set inventory. startswith (item_code p) ''ITM''")
  case False
  with generate_item_code_readable [OF generate_item_code_Inr_readable [OF assms]] assms
  show ?thesis by simp
next
  case True
  with generate_item_code_readable [OF generate_item_code_Inr_readable [OF assms]]
  obtain n where n: "\<exists>p\<in>set inventory. numbered p n"
    "\<forall>p\<in>set inventory. \<forall>m. numbered p m \<longrightarrow> m \<le> n"
    "generate_item_code inventory =
       (if \<bar>n + 1\<bar> < 10 ^ max_str_digits
        then Inr (''ITM'' @ padded_decimal (n + 1)) else Inl ValueError)"
    by auto
  from n(3) assms have "\<bar>n + 1\<bar> < 10 ^ max_str_digits \<and> code = ''ITM'' @ padded_decimal (n + 1)"
    by (auto split: if_splits)
  with n(1,2) True show ?thesis by auto
qed

lemma numbered_generated:
  "\<bar>k\<bar> < 10 ^ max_str_digits \<Longrightarrow> item_code p = ''ITM'' @ padded_decimal k \<Longrightarrow> numbered p k"
  by (simp add: numbered_def startswith_def py_int_padded_small)

lemma generate_item_code_fresh:
  assumes "generate_item_code inventory = Inr code"
  shows "\<forall>p\<in>set inventory. item_code p \<noteq> code"
proof
  fix p assume p: "p \<in> set inventory"
  show "item_code p \<noteq> code"
  proof
    assume eq: "item_code p = code"
    show False
    proof (cases "\<exists>q\<in>set inventory. startswith (item_code q) ''ITM''")
      case True
      with generate_item_code_returns [OF assms] obtain n where
        n: "code = ''ITM'' @ padded_decimal (n + 1)" "\<bar>n + 1\<bar> < 10 ^ max_str_digits"
        "\<forall>q\<in>set inventory. \<forall>m. numbered q m \<longrightarrow> m \<le> n"
        by auto
      from eq n(1) have "item_code p = ''ITM'' @ padded_decimal (n + 1)" by simp
      with n(2) have "numbered p (n + 1)" by (rule numbered_generated)
      with n(3) p have "n + 1 \<le> n" by blast
      then show False by simp
    next
      case False
      with generate_item_code_returns [OF assms] have "code = ''ITM'' @ padded_decimal 1"
        by (simp add: ITM001)
      with eq have "item_code p = ''ITM'' @ padded_decimal 1" by simp
      with one_small have "numbered p 1" by (rule numbered_generated)
      then have "startswith (item_code p) ''ITM''" by (simp add: numbered_def)
      with False p show False by blast
    qed
  qed
qed

lemma generate_item_code_succeeds:
  assumes ok: "\<forall>p\<in>set inventory. startswith (item_code p) ''ITM'' \<longrightarrow>
                 py_int (drop 3 (item_code p)) \<noteq> None"
    and small: "\<forall>p\<in>set inventory. \<forall>n. numbered p n \<longrightarrow> \<bar>n + 1\<bar> < 10 ^ max_str_digits"
  shows "\<exists>code. generate_item_code inventory = Inr code"
proof (cases "\<exists>p\<in>set inventory. startswith (item_code p) ''ITM''")
  case False
  with generate_item_code_readable [OF ok] show ?thesis by simp
next
  case True
  with generate_item_code_readable [OF ok]
  obtain n where n: "\<exists>p\<in>set inventory. numbered p n"
    "generate_item_code inventory =
       (if \<bar>n + 1\<bar> < 10 ^ max_str_digits
        then Inr (''ITM'' @ padded_decimal (n + 1)) else Inl ValueError)"
    by auto
  from n(1) small have "\<bar>n + 1\<bar> < 10 ^ max_str_digits" by blast
  with n(2) show ?thesis by simp
qed

lemma small_numbers: "\<bar>k\<bar> < 1000 \<Longrightarrow> \<bar>k::int\<bar> < 10 ^ max_str_digits"
proof -
  assume k: "\<bar>k\<bar> < 1000"
  have "(10::int) ^ 3 \<le> 10 ^ max_str_digits"
    by (intro power_increasing) (simp_all add: max_str_digits_def)
  with k show ?thesis by simp
qed

lemma is_decimal_py_int:
  assumes "is_decimal s" "length s \<le> max_str_digits"
  shows "py_int s \<noteq> None"
proof -
  from assms(1) have "\<forall>c\<in>set s. is_digit c" "s \<noteq> []"
    by (simp_all add: is_decimal_def list_all_iff)
  with assms(2) show ?thesis by (simp add: py_int_digits)
qed

lemma ledger_suffix: "drop 3 (item_code ledger) = replicate 4301 CHR ''1''"
  by (simp add: ledger_def)

lemma ledger_starts: "startswith (item_code ledger) ''ITM''"
  by (simp add: ledger_def startswith_def)

lemma is_digit_one: "is_digit CHR ''1''"
  by (simp add: is_digit_def)

lemma ledger_decimal: "is_decimal (drop 3 (item_code ledger))"
  by (simp add: ledger_suffix is_decimal_def list_all_iff is_digit_one)

lemma ledger_unreadable: "py_int (drop 3 (item_code ledger)) = None"
  unfolding ledger_suffix
  by (rule py_int_too_long) (simp_all add: is_digit_one max_str_digits_def)

lemma nines_value:
  "foldl (\<lambda>a c. 10 * a + digit_val c) a (replicate k CHR ''9'') = (a + 1) * 10 ^ k - 1"
proof (induction k arbitrary: a)
  case 0
  show ?case by simp
next
  case (Suc k)
  have nine: "digit_val CHR ''9'' = 9" by (simp add: digit_val_def)
  have "foldl (\<lambda>a c. 10 * a + digit_val c) a (replicate (Suc k) CHR ''9'') =
      foldl (\<lambda>a c. 10 * a + digit_val c) (10 * a + 9) (replicate k CHR ''9'')"
    by (simp add: nine)
  also have "\<dots> = (10 * a + 9 + 1) * 10 ^ k - 1" by (rule Suc.IH)
  also have "(10 * a + 9 + 1) * 10 ^ k = (a + 1) * 10 ^ Suc k" by (simp add: algebra_simps)
  finally show ?case .
qed

lemma is_digit_nine: "is_digit CHR ''9''"
  by (simp add: is_digit_def)

lemma register_suffix: "drop 3 (item_code register) = replicate max_str_digits CHR ''9''"
  by (simp add: register_def)

lemma register_starts: "startswith (item_code register) ''ITM''"
  by (simp add: register_def startswith_def)

lemma register_number: "py_int (drop 3 (item_code register)) = Some (10 ^ max_str_digits - 1)"
proof -
  have "py_int (replicate max_str_digits CHR ''9'') =
      Some (int (foldl (\<lambda>a c. 10 * a + digit_val c) 0 (replicate max_str_digits CHR ''9'')))"
    by (rule py_int_digits) (simp_all add: is_digit_nine max_str_digits_def)
  also have "\<dots> = Some (10 ^ max_str_digits - 1)"
    by (simp add: nines_value of_nat_diff)
  finally show ?thesis by (simp only: register_suffix)
qed

lemma generate_item_code_register: "generate_item_code [register] = Inl ValueError"
proof -
  have ok: "\<forall>p\<in>set [register]. startswith (item_code p) ''ITM'' \<longrightarrow>
      py_int (drop 3 (item_code p)) \<noteq> None"
    by (simp add: register_number)
  have starts: "\<exists>p\<in>set [register]. startswith (item_code p) ''ITM''"
    by (simp add: register_starts)
  from generate_item_code_readable [OF ok] starts
  obtain n where n: "\<exists>p\<in>set [register]. numbered p n"
    "generate_item_code [register] =
       (if \<bar>n + 1\<bar> < 10 ^ max_str_digits
        then Inr (''ITM'' @ padded_decimal (n + 1)) else Inl ValueError)"
    by auto
  from n(1) have "n = 10 ^ max_str_digits - 1"
    by (simp add: numbered_def register_number)
  then have "\<not> \<bar>n + 1\<bar> < 10 ^ max_str_digits" by simp
  with n(2) show ?thesis by simp
qed

text \<open>
  Claim C4, as the source has it. \<^verbatim>\<open>generate_item_code\<close> looks at every stored code
  that begins with \<^verbatim>\<open>ITM\<close> and reads the rest with \<^verbatim>\<open>int\<close>. If one of them cannot be
  read (it is no integer literal, or it has more than 4300 digits) the call raises
  \<^verbatim>\<open>ValueError\<close>. If all can be read and some code begins with \<^verbatim>\<open>ITM\<close>, the call
  returns \<^verbatim>\<open>ITM\<close> followed by the greatest number read plus one, padded with zeros to
  three digits, and raises \<^verbatim>\<open>ValueError\<close> if that number has more than 4300 digits. If
  no code begins with \<^verbatim>\<open>ITM\<close>, or the list is empty, it returns \<^verbatim>\<open>ITM001\<close>. On the
  codes \<^verbatim>\<open>ITM001\<close> and \<^verbatim>\<open>ITM003\<close> it returns \<^verbatim>\<open>ITM004\<close>.
\<close>

theorem generate_item_code_next_number:
  "((\<exists>p\<in>set inventory. startswith (item_code p) ''ITM'' \<and>
        py_int (drop 3 (item_code p)) = None) \<longrightarrow>
      generate_item_code inventory = Inl ValueError) \<and>
   ((\<forall>p\<in>set inventory. startswith (item_code p) ''ITM'' \<longrightarrow>
        py_int (drop 3 (item_code p)) \<noteq> None) \<longrightarrow>
      (if \<exists>p\<in>set inventory. startswith (item_code p) ''ITM''
       then \<exists>n. (\<exists>p\<in>set inventory. numbered p n) \<and>
              (\<forall>p\<in>set inventory. \<forall>m. numbered p m \<longrightarrow> m \<le> n) \<and>
              generate_item_code inventory =
                (if \<bar>n + 1\<bar> < 10 ^ max_str_digits
                 then Inr (''ITM'' @ padded_decimal (n + 1)) else Inl ValueError)
       else generate_item_code inventory = Inr ''ITM001'')) \<and>
   generate_item_code [] = Inr ''ITM001'' \<and>
   generate_item_code [widget, gadget] = Inr ''ITM004''"
proof (intro conjI impI)
  assume "\<exists>p\<in>set inventory. startswith (item_code p) ''ITM'' \<and>
        py_int (drop 3 (item_code p)) = None"
  then show "generate_item_code inventory = Inl ValueError"
    by (rule generate_item_code_unreadable)
next
  assume "\<forall>p\<in>set inventory. startswith (item_code p) ''ITM'' \<longrightarrow>
        py_int (drop 3 (item_code p)) \<noteq> None"
  then show "if \<exists>p\<in>set inventory. startswith (item_code p) ''ITM''
       then \<exists>n. (\<exists>p\<in>set inventory. numbered p n) \<and>
              (\<forall>p\<in>set inventory. \<forall>m. numbered p m \<longrightarrow> m \<le> n) \<and>
              generate_item_code inventory =
                (if \<bar>n + 1\<bar> < 10 ^ max_str_digits
                 then Inr (''ITM'' @ padded_decimal (n + 1)) else Inl ValueError)
       else generate_item_code inventory = Inr ''ITM001''"
    by (rule generate_item_code_readable)
next
  show "generate_item_code [] = Inr ''ITM001''" by (simp add: generate_item_code_def)
  show "generate_item_code [widget, gadget] = Inr ''ITM004''" by code_simp
qed

theorem generate_item_code_next_number_witness:
  "py_int (drop 3 (item_code widget)) = Some 1 \<and>
   py_int (drop 3 (item_code gadget)) = Some 3 \<and>
   (\<exists>p\<in>set [widget, gadget]. startswith (item_code p) ''ITM'') \<and>
   (\<exists>n. (\<exists>p\<in>set [widget, gadget]. numbered p n) \<and>
      (\<forall>p\<in>set [widget, gadget]. \<forall>m. numbered p m \<longrightarrow> m \<le> n) \<and>
      generate_item_code [widget, gadget] =
        (if \<bar>n + 1\<bar> < 10 ^ max_str_digits
         then Inr (''ITM'' @ padded_decimal (n + 1)) else Inl ValueError)) \<and>
   (\<exists>p\<in>set [widget, crate]. startswith (item_code p) ''ITM'' \<and>
      py_int (drop 3 (item_code p)) = None) \<and>
   generate_item_code [widget, crate] = Inl ValueError"
proof -
  note good = generate_item_code_next_number [of "[widget, gadget]"]
  note bad = generate_item_code_next_number [of "[widget, crate]"]
  have c1: "py_int (drop 3 (item_code widget)) = Some 1" by code_simp
  have c2: "py_int (drop 3 (item_code gadget)) = Some 3" by code_simp
  from c1 c2 have readable: "\<forall>p\<in>set [widget, gadget]. startswith (item_code p) ''ITM'' \<longrightarrow>
      py_int (drop 3 (item_code p)) \<noteq> None" by simp
  have starts: "\<exists>p\<in>set [widget, gadget]. startswith (item_code p) ''ITM''" by code_simp
  have "if \<exists>p\<in>set [widget, gadget]. startswith (item_code p) ''ITM''
       then \<exists>n. (\<exists>p\<in>set [widget, gadget]. numbered p n) \<and>
              (\<forall>p\<in>set [widget, gadget]. \<forall>m. numbered p m \<longrightarrow> m \<le> n) \<and>
              generate_item_code [widget, gadget] =
                (if \<bar>n + 1\<bar> < 10 ^ max_str_digits
                 then Inr (''ITM'' @ padded_decimal (n + 1)) else Inl ValueError)
       else generate_item_code [widget, gadget] = Inr ''ITM001''"
    using good [THEN conjunct2, THEN conjunct1] readable by (rule mp)
  with starts have mx: "\<exists>n. (\<exists>p\<in>set [widget, gadget]. numbered p n) \<and>
      (\<forall>p\<in>set [widget, gadget]. \<forall>m. numbered p m \<longrightarrow> m \<le> n) \<and>
      generate_item_code [widget, gadget] =
        (if \<bar>n + 1\<bar> < 10 ^ max_str_digits
         then Inr (''ITM'' @ padded_decimal (n + 1)) else Inl ValueError)"
    by (simp only: if_True)
  have unparsed: "\<exists>p\<in>set [widget, crate]. startswith (item_code p) ''ITM'' \<and>
      py_int (drop 3 (item_code p)) = None" by code_simp
  have raised: "generate_item_code [widget, crate] = Inl ValueError"
    using bad [THEN conjunct1] unparsed by (rule mp)
  show ?thesis
    by (intro conjI) (fact c1 c2 starts mx unparsed raised)+
qed

text \<open>
  Claim C4 as it is written returns \<^verbatim>\<open>ITM001\<close> when no stored code matches the
  pattern. The stored code \<^verbatim>\<open>ITMx\<close> does not match it, and the call raises
  \<^verbatim>\<open>ValueError\<close>.
\<close>

theorem generate_item_code_unmatched_code_counterexample:
  "item_code crate = ''ITMx'' \<and> generate_item_code [crate] = Inl ValueError"
  by code_simp

text \<open>
  Claim C9, as the source has it. If every stored code that begins with \<^verbatim>\<open>ITM\<close>
  continues with a decimal numeral that is not empty and has at most 4300 digits, the
  conversions with \<^verbatim>\<open>int\<close> do not fail; \<^verbatim>\<open>generate_item_code\<close> then returns a code
  and \<^verbatim>\<open>add_product\<close> returns a result, provided that the successor of each number read
  has at most 4300 digits. On an inventory that holds the code \<^verbatim>\<open>ITMx\<close>, or the bare
  code \<^verbatim>\<open>ITM\<close>, both raise \<^verbatim>\<open>ValueError\<close>.
\<close>

theorem generate_item_code_total_on_short_decimal_suffixes:
  "((\<forall>p\<in>set inventory. startswith (item_code p) ''ITM'' \<longrightarrow>
        is_decimal (drop 3 (item_code p)) \<and> length (drop 3 (item_code p)) \<le> max_str_digits)
      \<longrightarrow> (\<exists>ns. item_code_numbers inventory = Inr ns) \<and>
          ((\<forall>p\<in>set inventory. \<forall>n. numbered p n \<longrightarrow> \<bar>n + 1\<bar> < 10 ^ max_str_digits) \<longrightarrow>
             (\<exists>code. generate_item_code inventory = Inr code) \<and>
             (\<exists>r. add_product inventory nm pr st = Inr r))) \<and>
   generate_item_code [widget, crate] = Inl ValueError \<and>
   generate_item_code [barrel] = Inl ValueError \<and>
   add_product [widget, crate] ''Bolt'' 2 3 = Inl ValueError \<and>
   add_product [barrel] ''Bolt'' 2 3 = Inl ValueError"
proof (intro conjI impI)
  assume "\<forall>p\<in>set inventory. startswith (item_code p) ''ITM'' \<longrightarrow>
      is_decimal (drop 3 (item_code p)) \<and> length (drop 3 (item_code p)) \<le> max_str_digits"
  then have ok: "\<forall>p\<in>set inventory. startswith (item_code p) ''ITM'' \<longrightarrow>
      py_int (drop 3 (item_code p)) \<noteq> None"
    using is_decimal_py_int by blast
  from item_code_numbers_Inr [OF ok]
  show "\<exists>ns. item_code_numbers inventory = Inr ns" by blast
  assume "\<forall>p\<in>set inventory. \<forall>n. numbered p n \<longrightarrow> \<bar>n + 1\<bar> < 10 ^ max_str_digits"
  with ok obtain code where code: "generate_item_code inventory = Inr code"
    using generate_item_code_succeeds by blast
  then show "\<exists>code. generate_item_code inventory = Inr code" by blast
  from code show "\<exists>r. add_product inventory nm pr st = Inr r"
    by (simp add: add_product_def Let_def)
next
  show "generate_item_code [widget, crate] = Inl ValueError" by code_simp
  show "generate_item_code [barrel] = Inl ValueError" by code_simp
  show "add_product [widget, crate] ''Bolt'' 2 3 = Inl ValueError" by code_simp
  show "add_product [barrel] ''Bolt'' 2 3 = Inl ValueError" by code_simp
qed

theorem generate_item_code_total_on_short_decimal_suffixes_witness:
  "is_decimal (drop 3 (item_code widget)) \<and> is_decimal (drop 3 (item_code gadget)) \<and>
   length (drop 3 (item_code widget)) \<le> max_str_digits \<and>
   length (drop 3 (item_code gadget)) \<le> max_str_digits \<and>
   numbered widget 1 \<and> numbered gadget 3 \<and>
   \<bar>(1::int) + 1\<bar> < 10 ^ max_str_digits \<and> \<bar>(3::int) + 1\<bar> < 10 ^ max_str_digits \<and>
   (\<exists>ns. item_code_numbers [widget, gadget] = Inr ns) \<and>
   (\<exists>code. generate_item_code [widget, gadget] = Inr code) \<and>
   (\<exists>r. add_product [widget, gadget] ''Bolt'' 2 3 = Inr r)"
proof -
  note t = generate_item_code_total_on_short_decimal_suffixes
      [of "[widget, gadget]" "''Bolt''" 2 3, THEN conjunct1]
  have d1: "is_decimal (drop 3 (item_code widget))" by code_simp
  have d2: "is_decimal (drop 3 (item_code gadget))" by code_simp
  have l1: "length (drop 3 (item_code widget)) \<le> max_str_digits"
    by (simp add: widget_def max_str_digits_def)
  have l2: "length (drop 3 (item_code gadget)) \<le> max_str_digits"
    by (simp add: gadget_def max_str_digits_def)
  have n1: "numbered widget 1" by code_simp
  have n3: "numbered gadget 3" by code_simp
  have s1: "\<bar>(1::int) + 1\<bar> < 10 ^ max_str_digits" by (rule small_numbers) simp
  have s3: "\<bar>(3::int) + 1\<bar> < 10 ^ max_str_digits" by (rule small_numbers) simp
  from d1 d2 l1 l2
  have dec: "\<forall>p\<in>set [widget, gadget]. startswith (item_code p) ''ITM'' \<longrightarrow>
      is_decimal (drop 3 (item_code p)) \<and> length (drop 3 (item_code p)) \<le> max_str_digits"
    by simp
  from n1 n3 s1 s3
  have small: "\<forall>p\<in>set [widget, gadget]. \<forall>n. numbered p n \<longrightarrow> \<bar>n + 1\<bar> < 10 ^ max_str_digits"
    by (auto simp: numbered_def)
  have both: "(\<exists>ns. item_code_numbers [widget, gadget] = Inr ns) \<and>
      ((\<forall>p\<in>set [widget, gadget]. \<forall>n. numbered p n \<longrightarrow> \<bar>n + 1\<bar> < 10 ^ max_str_digits) \<longrightarrow>
         (\<exists>code. generate_item_code [widget, gadget] = Inr code) \<and>
         (\<exists>r. add_product [widget, gadget] ''Bolt'' 2 3 = Inr r))"
    using t dec by (rule mp)
  then have ret: "(\<exists>code. generate_item_code [widget, gadget] = Inr code) \<and>
         (\<exists>r. add_product [widget, gadget] ''Bolt'' 2 3 = Inr r)"
    using small by blast
  from both ret d1 d2 l1 l2 n1 n3 s1 s3 show ?thesis by blast
qed

text \<open>
  Claim C9 as it is written asks for a decimal numeral only. The stored code \<^verbatim>\<open>ITM\<close>
  followed by 4301 digits has one, and \<^verbatim>\<open>int\<close> refuses it: the call raises
  \<^verbatim>\<open>ValueError\<close>.
\<close>

theorem generate_item_code_long_suffix_counterexample:
  "startswith (item_code ledger) ''ITM'' \<and> is_decimal (drop 3 (item_code ledger)) \<and>
   generate_item_code [ledger] = Inl ValueError"
proof -
  have "\<exists>p\<in>set [ledger]. startswith (item_code p) ''ITM'' \<and>
      py_int (drop 3 (item_code p)) = None"
    using ledger_starts ledger_unreadable by simp
  then have "generate_item_code [ledger] = Inl ValueError"
    by (rule generate_item_code_unreadable)
  with ledger_starts ledger_decimal show ?thesis by blast
qed

subsection \<open>Add\<close>

lemma get_product_by_name_None:
  "get_product_by_name inventory nm = None \<longleftrightarrow> (\<forall>p\<in>set inventory. lower (name p) \<noteq> lower nm)"
  by (auto simp: get_product_by_name_def find_None_iff)

text \<open>
  Claim C2. For every inventory, \<^verbatim>\<open>add_product\<close> with a price that is not positive, a
  negative stock, or a name that equals the name of a stored product up to the case of
  letters raises nothing, returns \<^verbatim>\<open>None\<close> and leaves the list as it is.
\<close>

theorem add_product_rejects:
  assumes "pr \<le> 0 \<or> st < 0 \<or> (\<exists>p\<in>set inventory. lower (name p) = lower nm)"
  shows "add_product inventory nm pr st = Inr (None, inventory)"
proof (cases "pr \<le> 0 \<or> st < 0")
  case True
  then show ?thesis by (simp add: add_product_def)
next
  case False
  with assms have "\<exists>p\<in>set inventory. lower (name p) = lower nm" by blast
  then have "get_product_by_name inventory nm \<noteq> None"
    by (simp add: get_product_by_name_None)
  with False show ?thesis by (simp add: add_product_def)
qed

theorem add_product_rejects_witness:
  "add_product [widget, gadget] ''Bolt'' 0 3 = Inr (None, [widget, gadget]) \<and>
   add_product [widget, gadget] ''Bolt'' 2 (- 1) = Inr (None, [widget, gadget]) \<and>
   lower (name widget) = lower ''WIDGET'' \<and>
   add_product [widget, gadget] ''WIDGET'' 2 3 = Inr (None, [widget, gadget])"
proof -
  have dup: "lower (name widget) = lower ''WIDGET''" by code_simp
  then have "\<exists>p\<in>set [widget, gadget]. lower (name p) = lower ''WIDGET''" by simp
  then have "add_product [widget, gadget] ''WIDGET'' 2 3 = Inr (None, [widget, gadget])"
    using add_product_rejects [of 2 3 "[widget, gadget]" "''WIDGET''"] by blast
  moreover have "add_product [widget, gadget] ''Bolt'' 0 3 = Inr (None, [widget, gadget])"
    using add_product_rejects [of 0 3 "[widget, gadget]" "''Bolt''"] by simp
  moreover have "add_product [widget, gadget] ''Bolt'' 2 (- 1) = Inr (None, [widget, gadget])"
    using add_product_rejects [of 2 "- 1" "[widget, gadget]" "''Bolt''"] by simp
  ultimately show ?thesis using dup by blast
qed

text \<open>
  Claim C3, as the source has it. For every inventory in which \<^verbatim>\<open>int\<close> can read the rest
  of each stored code that begins with \<^verbatim>\<open>ITM\<close> and the successor of each number read
  has at most 4300 digits, and every name, price and stock with a positive price, a stock
  that is not negative and no stored name equal to the name up to the case of letters,
  \<^verbatim>\<open>add_product\<close> returns the new record and appends it to the list. The code of the new
  record is the code of no record stored before, and it is \<^verbatim>\<open>ITM\<close> followed by the
  greatest number of a stored code plus one, padded to three digits (\<^verbatim>\<open>ITM001\<close> when no
  stored code begins with \<^verbatim>\<open>ITM\<close>).
\<close>

theorem add_product_appends_fresh_code:
  assumes "0 < pr" and "0 \<le> st"
    and "\<forall>p\<in>set inventory. lower (name p) \<noteq> lower nm"
    and "\<forall>p\<in>set inventory. startswith (item_code p) ''ITM'' \<longrightarrow>
           py_int (drop 3 (item_code p)) \<noteq> None"
    and "\<forall>p\<in>set inventory. \<forall>n. numbered p n \<longrightarrow> \<bar>n + 1\<bar> < 10 ^ max_str_digits"
  shows "\<exists>code.
     add_product inventory nm pr st =
       Inr (Some \<lparr>name = nm, price = pr, stock = st, item_code = code\<rparr>,
            inventory @ [\<lparr>name = nm, price = pr, stock = st, item_code = code\<rparr>]) \<and>
     (\<forall>p\<in>set inventory. item_code p \<noteq> code) \<and>
     (if \<exists>p\<in>set inventory. startswith (item_code p) ''ITM''
      then \<exists>n. code = ''ITM'' @ padded_decimal (n + 1) \<and>
             (\<exists>p\<in>set inventory. numbered p n) \<and>
             (\<forall>p\<in>set inventory. \<forall>m. numbered p m \<longrightarrow> m \<le> n)
      else code = ''ITM001'')"
proof -
  from generate_item_code_succeeds [OF assms(4,5)]
  obtain code where code: "generate_item_code inventory = Inr code" by blast
  from assms(3) have "get_product_by_name inventory nm = None"
    by (simp add: get_product_by_name_None)
  with assms(1,2) code
  have add: "add_product inventory nm pr st =
       Inr (Some \<lparr>name = nm, price = pr, stock = st, item_code = code\<rparr>,
            inventory @ [\<lparr>name = nm, price = pr, stock = st, item_code = code\<rparr>])"
    by (simp add: add_product_def Let_def)
  have seq: "if \<exists>p\<in>set inventory. startswith (item_code p) ''ITM''
      then \<exists>n. code = ''ITM'' @ padded_decimal (n + 1) \<and>
             (\<exists>p\<in>set inventory. numbered p n) \<and>
             (\<forall>p\<in>set inventory. \<forall>m. numbered p m \<longrightarrow> m \<le> n)
      else code = ''ITM001''"
    using generate_item_code_returns [OF code] by (auto split: if_splits)
  from add generate_item_code_fresh [OF code] seq show ?thesis by blast
qed

theorem add_product_appends_fresh_code_witness:
  "(0::real) < 2 \<and> (0::int) \<le> 3 \<and>
   lower (name widget) \<noteq> lower ''Bolt'' \<and> lower (name gadget) \<noteq> lower ''Bolt'' \<and>
   py_int (drop 3 (item_code widget)) = Some 1 \<and>
   py_int (drop 3 (item_code gadget)) = Some 3 \<and>
   \<bar>(1::int) + 1\<bar> < 10 ^ max_str_digits \<and> \<bar>(3::int) + 1\<bar> < 10 ^ max_str_digits \<and>
   (\<exists>code.
     add_product [widget, gadget] ''Bolt'' 2 3 =
       Inr (Some \<lparr>name = ''Bolt'', price = 2, stock = 3, item_code = code\<rparr>,
            [widget, gadget] @ [\<lparr>name = ''Bolt'', price = 2, stock = 3, item_code = code\<rparr>]) \<and>
     (\<forall>p\<in>set [widget, gadget]. item_code p \<noteq> code) \<and>
     (if \<exists>p\<in>set [widget, gadget]. startswith (item_code p) ''ITM''
      then \<exists>n. code = ''ITM'' @ padded_decimal (n + 1) \<and>
             (\<exists>p\<in>set [widget, gadget]. numbered p n) \<and>
             (\<forall>p\<in>set [widget, gadget]. \<forall>m. numbered p m \<longrightarrow> m \<le> n)
      else code = ''ITM001''))"
proof -
  have pr: "(0::real) < 2" and st: "(0::int) \<le> 3" by simp_all
  have n1: "lower (name widget) \<noteq> lower ''Bolt''" by code_simp
  have n2: "lower (name gadget) \<noteq> lower ''Bolt''" by code_simp
  have c1: "py_int (drop 3 (item_code widget)) = Some 1" by code_simp
  have c2: "py_int (drop 3 (item_code gadget)) = Some 3" by code_simp
  have s1: "\<bar>(1::int) + 1\<bar> < 10 ^ max_str_digits" by (rule small_numbers) simp
  have s3: "\<bar>(3::int) + 1\<bar> < 10 ^ max_str_digits" by (rule small_numbers) simp
  from n1 n2 have names: "\<forall>p\<in>set [widget, gadget]. lower (name p) \<noteq> lower ''Bolt''"
    by simp
  from c1 c2 have codes: "\<forall>p\<in>set [widget, gadget]. startswith (item_code p) ''ITM'' \<longrightarrow>
      py_int (drop 3 (item_code p)) \<noteq> None" by simp
  from c1 c2 s1 s3
  have small: "\<forall>p\<in>set [widget, gadget]. \<forall>n. numbered p n \<longrightarrow> \<bar>n + 1\<bar> < 10 ^ max_str_digits"
    by (auto simp: numbered_def)
  note r = add_product_appends_fresh_code [OF pr st names codes small]
  show ?thesis
    by (intro conjI) (fact pr st n1 n2 c1 c2 s1 s3 r)+
qed

text \<open>
  Claim C3 as it is written lets every valid input succeed. With the stored code
  \<^verbatim>\<open>ITMx\<close> a valid product is not added: the call raises \<^verbatim>\<open>ValueError\<close>. So it
  does with the stored code \<^verbatim>\<open>ITM\<close> followed by 4300 nines, which \<^verbatim>\<open>int\<close> can read:
  the next number has 4301 digits.
\<close>

theorem add_product_unparsed_code_counterexample:
  "(0::real) < 2 \<and> (0::int) \<le> 3 \<and> get_product_by_name [crate] ''Bolt'' = None \<and>
   add_product [crate] ''Bolt'' 2 3 = Inl ValueError \<and>
   get_product_by_name [register] ''Bolt'' = None \<and>
   py_int (drop 3 (item_code register)) = Some (10 ^ max_str_digits - 1) \<and>
   add_product [register] ''Bolt'' 2 3 = Inl ValueError"
proof -
  have crate: "get_product_by_name [crate] ''Bolt'' = None \<and>
      add_product [crate] ''Bolt'' 2 3 = Inl ValueError" by code_simp
  have "name register = ''Register''" by (simp add: register_def)
  moreover have "lower ''Register'' \<noteq> lower ''Bolt''" by code_simp
  ultimately have nm: "get_product_by_name [register] ''Bolt'' = None"
    by (simp add: get_product_by_name_None)
  then have "add_product [register] ''Bolt'' 2 3 = Inl ValueError"
    by (simp add: add_product_def generate_item_code_register)
  with crate nm register_number show ?thesis by simp
qed

subsection \<open>Save and load\<close>

lemma product_of_json_to_dict:
  "product_of_json (to_dict p) =
     Inr \<lparr>loaded_name = JStr (name p), loaded_price = JFloat (price p),
          loaded_stock = stock p, loaded_item_code = JStr (item_code p)\<rparr>"
  by (simp add: product_of_json_def to_dict_def subscript_def and_then_def int_of_json_def)

lemma typed_product_to_dict:
  "typed_product \<lparr>loaded_name = JStr (name p), loaded_price = JFloat (price p),
       loaded_stock = stock p, loaded_item_code = JStr (item_code p)\<rparr> = Inr p"
  by (simp add: typed_product_def and_then_def str_field_def float_field_def)

lemma products_of_json_to_dict:
  "and_then (products_of_json (map to_dict ps)) typed_products = Inr ps"
proof -
  let ?l = "\<lambda>p. \<lparr>loaded_name = JStr (name p), loaded_price = JFloat (price p),
       loaded_stock = stock p, loaded_item_code = JStr (item_code p)\<rparr>"
  have 1: "products_of_json (map to_dict ps) = Inr (map ?l ps)"
    by (induction ps) (simp_all add: product_of_json_to_dict and_then_def)
  have 2: "typed_products (map ?l ps) = Inr ps"
    by (induction ps) (simp_all add: typed_product_to_dict and_then_def)
  show ?thesis by (simp add: 1 2 and_then_def)
qed

lemma loadable_to_dict:
  "loadable (to_dict p) \<longleftrightarrow> \<bar>stock p\<bar> < 10 ^ max_str_digits"
  by (simp add: to_dict_def digits_within_limit)

lemma save_inventory_written:
  assumes "\<forall>p\<in>set inventory. \<bar>stock p\<bar> < 10 ^ max_str_digits"
  shows "save_inventory Written inventory f = (None, Snapshot (JArr (map to_dict inventory)))"
proof -
  from assms have "\<forall>p\<in>set inventory. length (string_of_nat (nat \<bar>stock p\<bar>)) \<le> max_str_digits"
    by (simp add: digits_within_limit)
  then have "\<not> (\<exists>p\<in>set inventory. max_str_digits < length (string_of_nat (nat \<bar>stock p\<bar>)))"
    by (auto simp: not_less)
  then show ?thesis by (simp add: save_inventory_def)
qed

lemma load_inventory_snapshot:
  assumes "\<forall>p\<in>set inventory. \<bar>stock p\<bar> < 10 ^ max_str_digits"
  shows "load_inventory True (Snapshot (JArr (map to_dict inventory))) = Inr inventory"
proof -
  from assms have "loadable (JArr (map to_dict inventory))"
    by (simp add: loadable_to_dict)
  moreover
  have "and_then (products_of_json (map to_dict inventory)) typed_products = Inr inventory"
    by (rule products_of_json_to_dict)
  ultimately show ?thesis
    by (auto simp: load_inventory_def iterate_def and_then_def split: sum.splits)
qed

text \<open>
  Claim C6, as the source has it. For every inventory in which no stock has more than
  4300 digits, a save that is written raises nothing, and a load that can read the file
  then gives back the same list: as many records, each with the same name, price, stock
  and code, in the same order, whatever the file held before.
\<close>

theorem save_load_roundtrip:
  assumes "\<forall>p\<in>set inventory. \<bar>stock p\<bar> < 10 ^ max_str_digits"
  shows "fst (save_inventory Written inventory f) = None \<and>
         load_inventory True (snd (save_inventory Written inventory f)) = Inr inventory"
  by (simp add: save_inventory_written [OF assms] load_inventory_snapshot [OF assms])

theorem save_load_roundtrip_witness:
  "\<bar>stock widget\<bar> < 10 ^ max_str_digits \<and> \<bar>stock gadget\<bar> < 10 ^ max_str_digits \<and>
   fst (save_inventory Written [widget, gadget] Missing) = None \<and>
   load_inventory True (snd (save_inventory Written [widget, gadget] Missing)) =
     Inr [widget, gadget]"
proof -
  have w: "\<bar>stock widget\<bar> < 10 ^ max_str_digits"
    by (rule small_numbers) (simp add: widget_def)
  have g: "\<bar>stock gadget\<bar> < 10 ^ max_str_digits"
    by (rule small_numbers) (simp add: gadget_def)
  from w g have "\<forall>p\<in>set [widget, gadget]. \<bar>stock p\<bar> < 10 ^ max_str_digits" by simp
  from save_load_roundtrip [OF this, of Missing] w g show ?thesis by blast
qed

text \<open>
  Claim C6 as it is written holds for every inventory. The conversion of an integer of
  4301 digits to text is refused: the save of a product with such a stock raises
  \<^verbatim>\<open>ValueError\<close>, and a load afterwards gives the empty list.
\<close>

theorem save_load_long_stock_counterexample:
  "fst (save_inventory Written [vault] Missing) = Some ValueError \<and>
   load_inventory True (snd (save_inventory Written [vault] Missing)) = Inr []"
proof -
  have "\<not> \<bar>stock vault\<bar> < 10 ^ max_str_digits" by (simp add: vault_def)
  then have "max_str_digits < length (string_of_nat (nat \<bar>stock vault\<bar>))"
    by (simp add: digits_within_limit [symmetric] not_le)
  then have "save_inventory Written [vault] Missing = (Some ValueError, Unparseable)"
    by (simp add: save_inventory_def)
  then show ?thesis by (simp add: load_inventory_def)
qed

end
